theory Spec2Isabelle
  imports Main "HOL-Library.Multiset"
begin

section \<open>JSON values, objects and JavaScript tests\<close>

text \<open>
  Request bodies, RSVP entries and the rows of the \<open>users\<close> table are JSON objects
  whose members are scalars.  A member that is absent reads as \<open>undefined\<close> in the
  handlers; it is \<open>None\<close> here.  On scalars the strict equality \<open>===\<close> of the
  source is equality of \<open>jval option\<close>.  A string is the list of the bytes of its
  UTF-8 encoding.
\<close>

datatype jval = JNull | JBool bool | JNum int | JStr string

type_synonym obj = "(string \<times> jval) list"

definition fld :: "obj \<Rightarrow> string \<Rightarrow> jval option" where
  "fld r k = map_of r k"

definition keys :: "obj \<Rightarrow> string set" where
  "keys r = fst ` set r"

text \<open>The truthiness test of \<open>!x\<close>, \<open>x || y\<close>, \<open>x && y\<close> and \<open>x ? a : b\<close>.\<close>

fun truthy :: "jval option \<Rightarrow> bool" where
  "truthy None = False"
| "truthy (Some JNull) = False"
| "truthy (Some (JBool b)) = b"
| "truthy (Some (JNum n)) = (n \<noteq> 0)"
| "truthy (Some (JStr s)) = (s \<noteq> [])"

text \<open>
  An object literal \<open>{ k1, k2 }\<close> as it reaches the store: serialising it drops the
  members whose value is \<open>undefined\<close>.
\<close>

fun obj_lit :: "(string \<times> jval option) list \<Rightarrow> obj" where
  "obj_lit [] = []"
| "obj_lit ((k, None) # kvs) = obj_lit kvs"
| "obj_lit ((k, Some v) # kvs) = (k, v) # obj_lit kvs"

text \<open>\<open>{ ...r, k: v }\<close>: the member is overwritten in place, or added at the end.\<close>

fun set_member :: "string \<Rightarrow> jval \<Rightarrow> obj \<Rightarrow> obj" where
  "set_member k v [] = [(k, v)]"
| "set_member k v ((k', v') # r) =
     (if k' = k then (k, v) # r else (k', v') # set_member k v r)"

text \<open>\<open>const { k, ...safe } = r\<close>: the object without the member \<open>k\<close>.\<close>

definition without :: "string \<Rightarrow> obj \<Rightarrow> obj" where
  "without k r = filter (\<lambda>(k', v). k' \<noteq> k) r"

text \<open>
  String conversion of template literals and of filter values.  Numbers are integers
  here, printed in decimal.
\<close>

fun dec :: "nat \<Rightarrow> string" where
  "dec n =
     (if n < 10 then [''0123456789'' ! n]
      else dec (n div 10) @ [''0123456789'' ! (n mod 10)])"

fun js_string :: "jval option \<Rightarrow> string" where
  "js_string None = ''undefined''"
| "js_string (Some JNull) = ''null''"
| "js_string (Some (JBool b)) = (if b then ''true'' else ''false'')"
| "js_string (Some (JNum n)) = (if n < 0 then CHR ''-'' # dec (nat (- n)) else dec (nat n))"
| "js_string (Some (JStr s)) = s"

text \<open>
  The \<open>length\<close> of a string counts its UTF-16 code units: one for each character
  encoded in one, two or three bytes, two for each character encoded in four.  Of the
  bytes of an encoding, those from 128 to 191 continue a character and those from 240
  start one of four bytes.
\<close>

definition continuation :: "char \<Rightarrow> bool" where
  "continuation c = (128 \<le> (of_char c :: nat) \<and> (of_char c :: nat) < 192)"

definition utf16_length :: "string \<Rightarrow> nat" where
  "utf16_length s =
     length (filter (\<lambda>c. \<not> continuation c) s)
     + length (filter (\<lambda>c. 240 \<le> (of_char c :: nat)) s)"

text \<open>
  \<open>x.length < n\<close> for a truthy scalar \<open>x\<close>: only a string has a length; for a number
  or \<open>true\<close> the comparison is \<open>undefined < n\<close>, which is false.
\<close>

fun shorter_than :: "jval option \<Rightarrow> nat \<Rightarrow> bool" where
  "shorter_than (Some (JStr s)) n = (utf16_length s < n)"
| "shorter_than _ n = False"

section \<open>The tables\<close>

text \<open>
  An event row carries the columns the handlers below read or write (\<open>select('*')\<close>
  returns the other columns too; no handler below looks at them).  Ids are strings, as
  the path parameters are.  The RSVP list is the JSON array column \<open>rsvps\<close>, or null;
  its entries are objects \<open>{userId, username}\<close>.  \<open>created_by\<close> is a user id or
  null.  Timestamps are milliseconds.  The rows of \<open>users\<close> and \<open>follows\<close> are
  objects, a column being a member.
\<close>

record event =
  ev_id :: string
  ev_name :: string
  ev_privacy :: string
  ev_rsvps :: "obj list option"
  ev_created_by :: jval
  ev_created_at :: int

record message =
  msg_id :: string
  from_user :: string
  to_user :: string
  msg_text :: string
  msg_created_at :: int

record notification =
  n_user_id :: jval
  n_type :: string
  n_title :: string
  n_body :: string
  n_data :: obj

record db =
  users :: "obj list"
  events :: "event list"
  messages :: "message list"
  follows :: "obj list"
  notifications :: "notification list"

section \<open>The store client\<close>

text \<open>
  The store is an external service.  A call can fail for reasons of its own (network,
  constraint, outage): the flag \<open>failed\<close> of each operation says whether this call
  does.  The client never throws; it returns \<open>{ data, error }\<close>, here a sum with
  \<open>Inl\<close> the error message.
\<close>

definition store_failure :: string where
  "store_failure = ''store error''"

definition not_one_row :: string where
  "not_one_row = ''JSON object requested, multiple (or no) rows returned''"

text \<open>\<open>.single()\<close>: exactly one row, otherwise an error.\<close>

definition sb_single :: "bool \<Rightarrow> 'a list \<Rightarrow> string + 'a" where
  "sb_single failed rows =
     (if failed then Inl store_failure
      else case rows of [r] \<Rightarrow> Inr r | _ \<Rightarrow> Inl not_one_row)"

text \<open>\<open>.maybeSingle()\<close>: no row is \<open>null\<close> data without error, several rows are an error.\<close>

definition sb_maybeSingle :: "bool \<Rightarrow> 'a list \<Rightarrow> string + 'a option" where
  "sb_maybeSingle failed rows =
     (if failed then Inl store_failure
      else case rows of [] \<Rightarrow> Inr None | [r] \<Rightarrow> Inr (Some r) | _ \<Rightarrow> Inl not_one_row)"

text \<open>A query that returns a list: \<open>{ data, error }\<close> with all selected rows.\<close>

definition sb_rows :: "bool \<Rightarrow> 'a list \<Rightarrow> string + 'a list" where
  "sb_rows failed rows = (if failed then Inl store_failure else Inr rows)"

text \<open>
  \<open>.update(u).eq(...).select().single()\<close>: the rows selected by \<open>p\<close> are rewritten by
  \<open>u\<close>; the call asks for one object, and the store rejects the request, changing
  nothing, unless exactly one row is selected.
\<close>

definition sb_update_single ::
  "bool \<Rightarrow> ('a \<Rightarrow> bool) \<Rightarrow> ('a \<Rightarrow> 'a) \<Rightarrow> 'a list \<Rightarrow> (string + 'a) \<times> 'a list" where
  "sb_update_single failed p u rows =
     (if failed then (Inl store_failure, rows)
      else case filter p rows of
             [r] \<Rightarrow> (Inr (u r), map (\<lambda>x. if p x then u x else x) rows)
           | _ \<Rightarrow> (Inl not_one_row, rows))"

text \<open>\<open>.insert([row])\<close> whose result the caller ignores.\<close>

definition sb_insert :: "bool \<Rightarrow> 'a \<Rightarrow> 'a list \<Rightarrow> 'a list" where
  "sb_insert failed row rows = (if failed then rows else rows @ [row])"

text \<open>\<open>.delete().eq(...)\<close> whose result the caller ignores.\<close>

definition sb_delete :: "bool \<Rightarrow> ('a \<Rightarrow> bool) \<Rightarrow> 'a list \<Rightarrow> 'a list" where
  "sb_delete failed p rows = (if failed then rows else filter (\<lambda>r. \<not> p r) rows)"

text \<open>\<open>.update(u).eq(...)\<close> whose result the caller ignores.\<close>

definition sb_update :: "bool \<Rightarrow> ('a \<Rightarrow> bool) \<Rightarrow> ('a \<Rightarrow> 'a) \<Rightarrow> 'a list \<Rightarrow> 'a list" where
  "sb_update failed p u rows = (if failed then rows else map (\<lambda>x. if p x then u x else x) rows)"

text \<open>
  \<open>.eq(column, value)\<close> on an object row: the column holds that value.  Null equals
  nothing, and neither does an \<open>undefined\<close> filter value.
\<close>

definition sb_eq :: "obj \<Rightarrow> string \<Rightarrow> jval option \<Rightarrow> bool" where
  "sb_eq r col v =
     (case v of None \<Rightarrow> False | Some x \<Rightarrow> x \<noteq> JNull \<and> fld r col = Some x)"

text \<open>
  \<open>.ilike(column, pattern)\<close>: the case-insensitive pattern match of the store.  In a
  pattern \<open>%\<close> stands for any text and \<open>_\<close> for any one character (its first byte
  and the bytes that continue it), the backslash
  takes the next character literally, and the query layer reads \<open>*\<close> as \<open>%\<close>.  A
  pattern that ends in a lone backslash is rejected by the store; it matches nothing
  here, which every caller below treats as it treats the error.  The store folds the
  case of the pattern and of the text by the rules of its locale, the function
  \<open>lc\<close>, and then matches.
\<close>

fun like :: "string \<Rightarrow> string \<Rightarrow> bool" where
  "like [] s = (s = [])"
| "like (p # ps) s =
     (if p = CHR ''%'' then
        like ps s \<or> (case s of [] \<Rightarrow> False | c # cs \<Rightarrow> like (p # ps) cs)
      else if p = CHR 0x5C then
        (case ps of
           [] \<Rightarrow> False
         | q # qs \<Rightarrow> (case s of [] \<Rightarrow> False | c # cs \<Rightarrow> q = c \<and> like qs cs))
      else
        (case s of
           [] \<Rightarrow> False
         | c # cs \<Rightarrow>
             if p = CHR ''_'' then like ps (dropWhile continuation cs)
             else p = c \<and> like ps cs))"

definition star_to_percent :: "string \<Rightarrow> string" where
  "star_to_percent p = map (\<lambda>c. if c = CHR ''*'' then CHR ''%'' else c) p"

definition ilike :: "(string \<Rightarrow> string) \<Rightarrow> string \<Rightarrow> string \<Rightarrow> bool" where
  "ilike lc pattern s = like (lc (star_to_percent pattern)) (lc s)"

definition sb_ilike :: "(string \<Rightarrow> string) \<Rightarrow> obj \<Rightarrow> string \<Rightarrow> jval option \<Rightarrow> bool" where
  "sb_ilike lc r col pattern =
     (case fld r col of Some (JStr s) \<Rightarrow> ilike lc (js_string pattern) s | _ \<Rightarrow> False)"

text \<open>
  \<open>.select('c1, c2, ...')\<close>: the listed columns of a row, a column without a value
  being null.
\<close>

definition select_cols :: "string list \<Rightarrow> obj \<Rightarrow> obj" where
  "select_cols cols r = map (\<lambda>k. (k, case fld r k of None \<Rightarrow> JNull | Some v \<Rightarrow> v)) cols"

text \<open>
  \<open>.insert([row]).select(...).single()\<close>: the row is stored with the members given and,
  for the other columns, the values the store generates (\<open>id\<close>, \<open>created_at\<close>,
  column defaults).
\<close>

definition stored_row :: "obj \<Rightarrow> obj \<Rightarrow> obj" where
  "stored_row gen row = row @ filter (\<lambda>(k, v). k \<notin> keys row) gen"

definition sb_insert_single :: "bool \<Rightarrow> obj \<Rightarrow> obj \<Rightarrow> obj list \<Rightarrow> (string + obj) \<times> obj list" where
  "sb_insert_single failed gen row rows =
     (if failed then (Inl store_failure, rows)
      else (Inr (stored_row gen row), rows @ [stored_row gen row]))"

text \<open>
  \<open>.order(column, { ascending })\<close> and \<open>.limit(n)\<close>.  Rows with equal keys keep the
  order of the table.
\<close>

definition sb_order_asc :: "('a \<Rightarrow> int) \<Rightarrow> 'a list \<Rightarrow> 'a list" where
  "sb_order_asc col rows = sort_key col rows"

definition sb_order_desc :: "('a \<Rightarrow> int) \<Rightarrow> 'a list \<Rightarrow> 'a list" where
  "sb_order_desc col rows = sort_key (\<lambda>r. - col r) rows"

definition sb_limit :: "nat \<Rightarrow> 'a list \<Rightarrow> 'a list" where
  "sb_limit n rows = take n rows"

section \<open>Handlers: environment and replies\<close>

text \<open>
  What a handler reads besides the request and the tables: whether \<open>getSupabase()\<close>
  finds its two environment variables, which of the handler's store calls (numbered
  from 0 in program order) fail, \<open>Date.now()\<close>, the salted hash \<open>hashPassword\<close>,
  the column values the store generates for an inserted row, the case folding of
  the store's locale, and the library functions \<open>encodeURIComponent\<close>,
  \<open>toLowerCase\<close>, \<open>bcrypt.hash\<close> and \<open>bcrypt.compare\<close>.

  The REST variant that creates its store client once, without \<open>getSupabase\<close>, has
  the handlers of \<open>server.js\<close> without the configuration test: they are the
  handlers below in an environment with \<open>configured = True\<close>.
\<close>

record env =
  configured :: bool
  down :: "nat set"
  now :: int
  hashPassword :: "jval option \<Rightarrow> string"
  generated :: obj
  store_fold :: "string \<Rightarrow> string"
  encodeURIComponent :: "string \<Rightarrow> string"
  toLowerCase :: "string \<Rightarrow> string"
  bcrypt_hash :: "string \<Rightarrow> string"
  bcrypt_compare :: "string \<Rightarrow> string \<Rightarrow> bool"

text \<open>
  A reply is a status and a JSON payload.  \<open>PThrown\<close> stands for a handler that throws
  and sends nothing; \<open>PNotModelled\<close> is the reply of the routes whose handlers are
  outside this development.
\<close>

datatype payload =
    PError string
  | PNotConfigured
  | PObj obj
  | PEvent event
  | PEvents "event list"
  | PMessages "message list"
  | PEmpty
  | PThrown
  | PNotModelled

type_synonym reply = "nat \<times> payload"

definition dbError :: reply where
  "dbError = (500, PNotConfigured)"

section \<open>Identity handlers of \<open>server.js\<close>\<close>

definition user_cols :: "string list" where
  "user_cols = [''id'', ''username'', ''email'', ''avatar'', ''online'', ''bio'',
                ''profile_color'', ''created_at'']"

definition public_user_cols :: "string list" where
  "public_user_cols = [''id'', ''username'', ''avatar'', ''online'', ''bio'',
                       ''profile_color'', ''created_at'']"

definition dicebear :: "env \<Rightarrow> jval option \<Rightarrow> jval" where
  "dicebear e username =
     JStr (''https://api.dicebear.com/7.x/avataaars/svg?seed=''
           @ encodeURIComponent e (js_string username))"

text \<open>\<open>POST /api/users\<close> (lines 66-91).\<close>

definition register :: "env \<Rightarrow> obj \<Rightarrow> db \<Rightarrow> reply \<times> db" where
  "register e body d =
     (if \<not> configured e then (dbError, d)
      else
        let username = fld body ''username''; email = fld body ''email'';
            password = fld body ''password''; avatar = fld body ''avatar'' in
        if \<not> truthy username then ((400, PError ''Username required''), d)
        else if \<not> truthy email then ((400, PError ''Email required''), d)
        else if \<not> truthy password \<or> shorter_than password 6
          then ((400, PError ''Password must be at least 6 characters''), d)
        else
          case sb_maybeSingle (0 \<in> down e)
                 (filter (\<lambda>u. sb_eq u ''email'' email) (users d)) of
            Inr (Some byEmail) \<Rightarrow>
              ((409, PError ''Email already registered. Please sign in.''), d)
          | _ \<Rightarrow>
             (case sb_maybeSingle (1 \<in> down e)
                     (filter (\<lambda>u. sb_ilike (store_fold e) u ''username'' username) (users d)) of
                Inr (Some byName) \<Rightarrow>
                  ((409, PError ''Username already taken. Try another one.''), d)
              | _ \<Rightarrow>
                 (let avatarUrl =
                        (if truthy avatar then avatar else Some (dicebear e username)) in
                  case sb_insert_single (2 \<in> down e) (generated e)
                         (obj_lit [(''username'', username), (''email'', email),
                                   (''password_hash'', Some (JStr (hashPassword e password))),
                                   (''avatar'', avatarUrl), (''online'', Some (JBool True))])
                         (users d) of
                    (Inl msg, us) \<Rightarrow> ((500, PError msg), d\<lparr>users := us\<rparr>)
                  | (Inr data, us) \<Rightarrow>
                      ((200, PObj (select_cols user_cols data)), d\<lparr>users := us\<rparr>))))"

text \<open>\<open>POST /api/auth/signin\<close> (lines 94-113).\<close>

definition signin :: "env \<Rightarrow> obj \<Rightarrow> db \<Rightarrow> reply \<times> db" where
  "signin e body d =
     (if \<not> configured e then (dbError, d)
      else
        let email = fld body ''email''; password = fld body ''password'' in
        if \<not> truthy email \<or> \<not> truthy password
          then ((400, PError ''Email and password required''), d)
        else
          case sb_maybeSingle (0 \<in> down e)
                 (map (select_cols user_cols)
                    (filter (\<lambda>u. sb_eq u ''email'' email
                                 \<and> sb_eq u ''password_hash'' (Some (JStr (hashPassword e password))))
                       (users d))) of
            Inl msg \<Rightarrow> ((500, PError msg), d)
          | Inr None \<Rightarrow> ((401, PError ''Invalid email or password''), d)
          | Inr (Some user) \<Rightarrow>
              ((200, PObj (set_member ''online'' (JBool True) user)),
               d\<lparr>users := sb_update (1 \<in> down e) (\<lambda>u. sb_eq u ''id'' (fld user ''id''))
                             (set_member ''online'' (JBool True)) (users d)\<rparr>))"

text \<open>
  \<open>PATCH /api/users/:id\<close> (lines 138-153).  The four tests \<open>x !== undefined\<close> build
  \<open>updates\<close> from the members of the body that are present, null included; the store
  writes each member of \<open>updates\<close> into the column of its name.
\<close>

definition apply_updates :: "obj \<Rightarrow> obj \<Rightarrow> obj" where
  "apply_updates updates r = fold (\<lambda>(k, v). set_member k v) updates r"

definition patch_user :: "env \<Rightarrow> string \<Rightarrow> obj \<Rightarrow> db \<Rightarrow> reply \<times> db" where
  "patch_user e uid body d =
     (if \<not> configured e then (dbError, d)
      else
        let updates = obj_lit [(''username'', fld body ''username''),
                               (''avatar'', fld body ''avatar''),
                               (''bio'', fld body ''bio''),
                               (''profile_color'', fld body ''profile_color'')] in
        if updates = [] then ((400, PError ''Nothing to update''), d)
        else
          case sb_update_single (0 \<in> down e) (\<lambda>u. sb_eq u ''id'' (Some (JStr uid)))
                 (apply_updates updates) (users d) of
            (Inl msg, us) \<Rightarrow> ((500, PError msg), d\<lparr>users := us\<rparr>)
          | (Inr data, us) \<Rightarrow>
              ((200, PObj (select_cols public_user_cols data)), d\<lparr>users := us\<rparr>))"

section \<open>Identity handlers of the socket variant\<close>

text \<open>
  The variant with the socket layer has one store client for the module and no
  configuration test.  \<open>bcrypt.hash\<close> and \<open>bcrypt.compare\<close> reject an argument
  that is not a string, and \<open>email.toLowerCase()\<close> throws for an email that is not
  one; the handler then throws and sends no reply.
\<close>

definition thrown :: reply where
  "thrown = (0, PThrown)"

text \<open>\<open>POST /api/users\<close> of the socket variant (lines 51-93).\<close>

definition register_socket :: "env \<Rightarrow> obj \<Rightarrow> db \<Rightarrow> reply \<times> db" where
  "register_socket e body d =
     (let username = fld body ''username''; email = fld body ''email'';
          password = fld body ''password''; avatar = fld body ''avatar'' in
      if \<not> truthy username then ((400, PError ''Username required''), d)
      else if truthy email \<and> truthy password then
        (case sb_maybeSingle (0 \<in> down e)
                (filter (\<lambda>u. sb_ilike (store_fold e) u ''email'' email) (users d)) of
           Inr (Some existingEmail) \<Rightarrow> ((409, PError ''Email already in use''), d)
         | _ \<Rightarrow>
           (case (password, email) of
              (Some (JStr pw), Some (JStr s)) \<Rightarrow>
                (let hash = bcrypt_hash e pw;
                     userAvatar =
                       (if truthy avatar then avatar else Some (dicebear e username)) in
                 case sb_insert_single (1 \<in> down e) (generated e)
                        (obj_lit [(''username'', username), (''email'', Some (JStr (toLowerCase e s))),
                                  (''password_hash'', Some (JStr hash)),
                                  (''avatar'', userAvatar), (''online'', Some (JBool True))])
                        (users d) of
                   (Inl msg, us) \<Rightarrow> ((500, PError msg), d\<lparr>users := us\<rparr>)
                 | (Inr data, us) \<Rightarrow>
                     ((200, PObj (without ''password_hash'' data)), d\<lparr>users := us\<rparr>))
            | _ \<Rightarrow> (thrown, d)))
      else
        (case sb_maybeSingle (0 \<in> down e)
                (filter (\<lambda>u. sb_ilike (store_fold e) u ''username'' username) (users d)) of
           Inr (Some existing) \<Rightarrow>
             ((200, PObj (set_member ''online'' (JBool True) (without ''password_hash'' existing))),
              d\<lparr>users := sb_update (1 \<in> down e) (\<lambda>u. sb_eq u ''id'' (fld existing ''id''))
                            (set_member ''online'' (JBool True)) (users d)\<rparr>)
         | _ \<Rightarrow>
           (case sb_insert_single (1 \<in> down e) (generated e)
                   (obj_lit [(''username'', username), (''avatar'', Some (dicebear e username)),
                             (''online'', Some (JBool True))])
                   (users d) of
              (Inl msg, us) \<Rightarrow> ((500, PError msg), d\<lparr>users := us\<rparr>)
            | (Inr data, us) \<Rightarrow>
                ((200, PObj (without ''password_hash'' data)), d\<lparr>users := us\<rparr>))))"

text \<open>\<open>POST /api/auth/signin\<close> of the socket variant (lines 96-115).\<close>

definition signin_socket :: "env \<Rightarrow> obj \<Rightarrow> db \<Rightarrow> reply \<times> db" where
  "signin_socket e body d =
     (let email = fld body ''email''; password = fld body ''password'' in
      if \<not> truthy email \<or> \<not> truthy password
        then ((400, PError ''Email and password required''), d)
      else
        case sb_maybeSingle (0 \<in> down e)
               (filter (\<lambda>u. sb_ilike (store_fold e) u ''email'' email) (users d)) of
          Inl msg \<Rightarrow> ((401, PError ''Invalid email or password''), d)
        | Inr None \<Rightarrow> ((401, PError ''Invalid email or password''), d)
        | Inr (Some user) \<Rightarrow>
            if \<not> truthy (fld user ''password_hash'')
              then ((401, PError ''Account uses a different login method''), d)
            else
              (case (password, fld user ''password_hash'') of
                 (Some (JStr pw), Some (JStr hash)) \<Rightarrow>
                   if \<not> bcrypt_compare e pw hash
                     then ((401, PError ''Invalid email or password''), d)
                   else
                     ((200, PObj (set_member ''online'' (JBool True)
                                    (without ''password_hash'' user))),
                      d\<lparr>users := sb_update (1 \<in> down e)
                                    (\<lambda>u. sb_eq u ''id'' (fld user ''id''))
                                    (set_member ''online'' (JBool True)) (users d)\<rparr>)
               | _ \<Rightarrow> (thrown, d)))"

section \<open>RSVP toggle\<close>

text \<open>\<open>ev.rsvps || []\<close>; an array, even an empty one, is truthy.\<close>

definition rsvps_or_empty :: "event \<Rightarrow> obj list" where
  "rsvps_or_empty ev = (case ev_rsvps ev of None \<Rightarrow> [] | Some rs \<Rightarrow> rs)"

text \<open>\<^verbatim>\<open>const already = rsvps.find(r => r.userId === userId);\<close>\<close>

definition find_rsvp :: "obj list \<Rightarrow> jval option \<Rightarrow> obj option" where
  "find_rsvp rsvps userId = find (\<lambda>r. fld r ''userId'' = userId) rsvps"

text \<open>
  \<^verbatim>\<open>rsvps = already ? rsvps.filter(r => r.userId !== userId) : [...rsvps, { userId, username }];\<close>
  The entry found is an object, hence truthy.
\<close>

definition toggle_rsvps ::
  "obj option \<Rightarrow> obj list \<Rightarrow> jval option \<Rightarrow> jval option \<Rightarrow> obj list" where
  "toggle_rsvps already rsvps userId username =
     (case already of
        Some r \<Rightarrow> filter (\<lambda>r. fld r ''userId'' \<noteq> userId) rsvps
      | None \<Rightarrow> rsvps @ [obj_lit [(''userId'', userId), (''username'', username)]])"

text \<open>\<open>POST /api/events/:id/rsvp\<close> of \<open>server.js\<close> (lines 198-212).\<close>

definition rsvp :: "env \<Rightarrow> string \<Rightarrow> obj \<Rightarrow> db \<Rightarrow> reply \<times> db" where
  "rsvp e eid body d =
     (if \<not> configured e then (dbError, d)
      else
        let userId = fld body ''userId''; username = fld body ''username'' in
        if \<not> truthy userId then ((400, PError ''userId required''), d)
        else
          case sb_single (0 \<in> down e) (filter (\<lambda>ev. ev_id ev = eid) (events d)) of
            Inl fetchErr \<Rightarrow> ((404, PError ''Event not found''), d)
          | Inr ev \<Rightarrow>
              let rsvps = rsvps_or_empty ev;
                  already = find_rsvp rsvps userId;
                  rsvps = toggle_rsvps already rsvps userId username in
              (case sb_update_single (1 \<in> down e) (\<lambda>x. ev_id x = eid)
                      (\<lambda>x. x\<lparr>ev_rsvps := Some rsvps\<rparr>) (events d) of
                 (Inl msg, evs) \<Rightarrow> ((500, PError msg), d\<lparr>events := evs\<rparr>)
               | (Inr data, evs) \<Rightarrow> ((200, PEvent data), d\<lparr>events := evs\<rparr>)))"

text \<open>
  The handler registered under the comment \<open>Enhanced RSVP with notification\<close>
  (lines 621-644 of the file that appends the social routes to \<open>server.js\<close>).  The
  result of the notification insert is not looked at.
\<close>

definition rsvp_title :: "jval option \<Rightarrow> event \<Rightarrow> string" where
  "rsvp_title username ev =
     js_string username @ '' is going to '' @ [CHR 0x22] @ ev_name ev @ [CHR 0x22]
       @ ''! '' @ [CHR 0xF0, CHR 0x9F, CHR 0x8E, CHR 0x89]"

definition rsvp_enhanced :: "env \<Rightarrow> string \<Rightarrow> obj \<Rightarrow> db \<Rightarrow> reply \<times> db" where
  "rsvp_enhanced e eid body d =
     (if \<not> configured e then (dbError, d)
      else
        let userId = fld body ''userId''; username = fld body ''username'' in
        if \<not> truthy userId then ((400, PError ''userId required''), d)
        else
          case sb_single (0 \<in> down e) (filter (\<lambda>ev. ev_id ev = eid) (events d)) of
            Inl fetchErr \<Rightarrow> ((404, PError ''Event not found''), d)
          | Inr ev \<Rightarrow>
              let rsvps = rsvps_or_empty ev;
                  already = find_rsvp rsvps userId;
                  rsvps = toggle_rsvps already rsvps userId username in
              (case sb_update_single (1 \<in> down e) (\<lambda>x. ev_id x = eid)
                      (\<lambda>x. x\<lparr>ev_rsvps := Some rsvps\<rparr>) (events d) of
                 (Inl msg, evs) \<Rightarrow> ((500, PError msg), d\<lparr>events := evs\<rparr>)
               | (Inr data, evs) \<Rightarrow>
                  if already = None \<and> truthy (Some (ev_created_by ev))
                     \<and> Some (ev_created_by ev) \<noteq> userId
                  then
                    ((200, PEvent data),
                     d\<lparr>events := evs,
                       notifications := sb_insert (2 \<in> down e)
                         \<lparr>n_user_id = ev_created_by ev, n_type = ''rsvp'',
                          n_title = rsvp_title username ev,
                          n_body = ''Someone new joined your event.'',
                          n_data = obj_lit [(''event_id'', Some (JStr eid)),
                                            (''user_id'', userId)]\<rparr>
                         (notifications d)\<rparr>)
                  else ((200, PEvent data), d\<lparr>events := evs\<rparr>)))"

text \<open>
  \<open>POST /api/events/:id/rsvp\<close> of the socket variant (lines 171-213): no test of
  \<open>userId\<close>, \<open>push\<close> in place of the spread, and two broadcasts to the connected
  clients, the second only when an entry was added.
\<close>

datatype emit = EventUpdated event | Activity string "jval option" string int

definition rsvp_socket :: "env \<Rightarrow> string \<Rightarrow> obj \<Rightarrow> db \<Rightarrow> (reply \<times> emit list) \<times> db" where
  "rsvp_socket e eid body d =
     (let userId = fld body ''userId''; username = fld body ''username'' in
      case sb_single (0 \<in> down e) (filter (\<lambda>ev. ev_id ev = eid) (events d)) of
        Inl fetchErr \<Rightarrow> (((404, PError ''Event not found''), []), d)
      | Inr ev \<Rightarrow>
          let rsvps = rsvps_or_empty ev;
              already = find_rsvp rsvps userId;
              rsvps = toggle_rsvps already rsvps userId username in
          (case sb_update_single (1 \<in> down e) (\<lambda>x. ev_id x = eid)
                  (\<lambda>x. x\<lparr>ev_rsvps := Some rsvps\<rparr>) (events d) of
             (Inl msg, evs) \<Rightarrow> (((500, PError msg), []), d\<lparr>events := evs\<rparr>)
           | (Inr data, evs) \<Rightarrow>
               (((200, PEvent data),
                 EventUpdated data #
                 (if already = None
                  then [Activity ''rsvpAdded'' username
                          (''is going to '' @ [CHR 0x22] @ ev_name ev @ [CHR 0x22]) (now e)]
                  else [])),
                d\<lparr>events := evs\<rparr>)))"

text \<open>
  \<open>POST /api/follows\<close> (lines 565-586 of the file with the social routes).  Of its
  store calls only the first lookup is looked at; \<open>followerUser.data?.username ||
  'Someone'\<close> covers a lookup that fails.  A member of the notification whose value is
  \<open>undefined\<close> is stored as null.
\<close>

definition or_null :: "jval option \<Rightarrow> jval" where
  "or_null v = (case v of None \<Rightarrow> JNull | Some x \<Rightarrow> x)"

definition follow :: "env \<Rightarrow> obj \<Rightarrow> db \<Rightarrow> reply \<times> db" where
  "follow e body d =
     (if \<not> configured e then (dbError, d)
      else
        let follower_id = fld body ''follower_id''; following_id = fld body ''following_id'' in
        if \<not> truthy follower_id \<or> \<not> truthy following_id
          then ((400, PError ''follower_id and following_id required''), d)
        else
          case sb_maybeSingle (0 \<in> down e)
                 (filter (\<lambda>f. sb_eq f ''follower_id'' follower_id
                              \<and> sb_eq f ''following_id'' following_id) (follows d)) of
            Inr (Some existing) \<Rightarrow>
              ((200, PObj [(''following'', JBool False)]),
               d\<lparr>follows := sb_delete (1 \<in> down e) (\<lambda>f. sb_eq f ''id'' (fld existing ''id''))
                               (follows d)\<rparr>)
          | _ \<Rightarrow>
             (let followerUser =
                    sb_single (2 \<in> down e)
                      (map (select_cols [''username''])
                         (filter (\<lambda>u. sb_eq u ''id'' follower_id) (users d)));
                  name = (case followerUser of
                            Inr u \<Rightarrow> if truthy (fld u ''username'')
                                     then js_string (fld u ''username'') else ''Someone''
                          | Inl err \<Rightarrow> ''Someone'') in
              ((200, PObj [(''following'', JBool True)]),
               d\<lparr>follows := sb_insert (1 \<in> down e)
                               (stored_row (generated e)
                                  (obj_lit [(''follower_id'', follower_id),
                                            (''following_id'', following_id)]))
                               (follows d),
                 notifications := sb_insert (3 \<in> down e)
                   \<lparr>n_user_id = or_null following_id, n_type = ''follow'',
                    n_title = name @ '' followed you!'',
                    n_body = ''Check out their profile.'',
                    n_data = obj_lit [(''follower_id'', follower_id)]\<rparr>
                   (notifications d)\<rparr>)))"

text \<open>The invariant of the data model: at most one RSVP entry per user id.\<close>

definition one_entry_per_user :: "obj list \<Rightarrow> bool" where
  "one_entry_per_user rsvps = distinct (map (\<lambda>r. fld r ''userId'') rsvps)"

section \<open>Trending events\<close>

text \<open>
  \<open>GET /api/events/trending\<close> (lines 608-618).  \<open>b.rsvps?.length || 0\<close> is the length
  of the RSVP list, 0 for null.  The comparator of \<open>sort\<close> puts the larger count
  first; the sort is stable.
\<close>

definition rsvp_count :: "event \<Rightarrow> nat" where
  "rsvp_count ev = (case ev_rsvps ev of None \<Rightarrow> 0 | Some rs \<Rightarrow> length rs)"

definition sort_by_rsvp_count :: "event list \<Rightarrow> event list" where
  "sort_by_rsvp_count evs = sort_key (\<lambda>ev. - int (rsvp_count ev)) evs"

definition qualifying :: "int \<Rightarrow> event \<Rightarrow> bool" where
  "qualifying since ev = (ev_privacy ev = ''public'' \<and> since \<le> ev_created_at ev)"

definition trending :: "env \<Rightarrow> db \<Rightarrow> reply \<times> db" where
  "trending e d =
     (if \<not> configured e then (dbError, d)
      else
        let since = now e - 24 * 60 * 60 * 1000 in
        case sb_rows (0 \<in> down e)
               (sb_limit 10 (sb_order_desc ev_created_at
                  (filter (qualifying since) (events d)))) of
          Inl msg \<Rightarrow> ((500, PError msg), d)
        | Inr data \<Rightarrow> ((200, PEvents (sort_by_rsvp_count data)), d))"

section \<open>Message history\<close>

text \<open>
  \<open>GET /api/messages/:userId/:otherId\<close> (lines 215-224).  The two ids are written
  into the filter \<open>or(and(from_user.eq.A,to_user.eq.B),and(from_user.eq.B,to_user.eq.A))\<close>
  as they come; the filter is read here for ids that hold none of the characters
  the filter syntax reserves.
\<close>

definition between :: "string \<Rightarrow> string \<Rightarrow> message \<Rightarrow> bool" where
  "between userId otherId m =
     ((from_user m = userId \<and> to_user m = otherId)
      \<or> (from_user m = otherId \<and> to_user m = userId))"

definition history :: "env \<Rightarrow> string \<Rightarrow> string \<Rightarrow> db \<Rightarrow> reply \<times> db" where
  "history e userId otherId d =
     (if \<not> configured e then (dbError, d)
      else
        case sb_rows (0 \<in> down e)
               (sb_order_asc msg_created_at (filter (between userId otherId) (messages d))) of
          Inl msg \<Rightarrow> ((500, PError msg), d)
        | Inr data \<Rightarrow> ((200, PMessages data), d))"

section \<open>Routing\<close>

text \<open>
  The application is the list of its routes in the order of registration.  A request
  goes to the first route whose method and path match; none of the handlers calls
  \<open>next\<close>, so no later route sees it.  Before the routes, the CORS layer answers
  every \<open>OPTIONS\<close> request.  A path is the list of its segments; a parameter
  matches any segment that is not empty.  (The router also ignores the case of the
  literal segments and a trailing slash, which no statement below depends on.)
\<close>

datatype meth = GET | POST | PUT | PATCH | DELETE | OPTIONS

datatype seg = Lit string | Par string

record request =
  req_method :: meth
  req_path :: "string list"
  req_body :: obj

type_synonym handler = "env \<Rightarrow> (string \<times> string) list \<Rightarrow> obj \<Rightarrow> db \<Rightarrow> reply \<times> db"

type_synonym route = "meth \<times> seg list \<times> handler"

fun match_path :: "seg list \<Rightarrow> string list \<Rightarrow> (string \<times> string) list option" where
  "match_path [] [] = Some []"
| "match_path (Lit l # ps) (x # xs) = (if l = x then match_path ps xs else None)"
| "match_path (Par k # ps) (x # xs) =
     (if x = [] then None else map_option (\<lambda>r. (k, x) # r) (match_path ps xs))"
| "match_path _ _ = None"

definition param :: "(string \<times> string) list \<Rightarrow> string \<Rightarrow> string" where
  "param ps k = (case map_of ps k of Some v \<Rightarrow> v | None \<Rightarrow> [])"

fun route_to :: "route list \<Rightarrow> env \<Rightarrow> request \<Rightarrow> db \<Rightarrow> reply \<times> db" where
  "route_to [] e rq d = ((404, PEmpty), d)"
| "route_to ((m, p, h) # rs) e rq d =
     (if m = req_method rq then
        (case match_path p (req_path rq) of
           Some ps \<Rightarrow> h e ps (req_body rq) d
         | None \<Rightarrow> route_to rs e rq d)
      else route_to rs e rq d)"

definition dispatch :: "route list \<Rightarrow> env \<Rightarrow> request \<Rightarrow> db \<Rightarrow> reply \<times> db" where
  "dispatch app e rq d =
     (if req_method rq = OPTIONS then ((200, PEmpty), d) else route_to app e rq d)"

definition not_modelled :: handler where
  "not_modelled e ps body d = ((0, PNotModelled), d)"

definition h_register :: handler where
  "h_register e ps body d = register e body d"

definition h_signin :: handler where
  "h_signin e ps body d = signin e body d"

definition h_patch_user :: handler where
  "h_patch_user e ps body d = patch_user e (param ps ''id'') body d"

definition h_rsvp :: handler where
  "h_rsvp e ps body d = rsvp e (param ps ''id'') body d"

definition h_rsvp_enhanced :: handler where
  "h_rsvp_enhanced e ps body d = rsvp_enhanced e (param ps ''id'') body d"

definition h_history :: handler where
  "h_history e ps body d = history e (param ps ''userId'') (param ps ''otherId'') d"

definition h_trending :: handler where
  "h_trending e ps body d = trending e d"

definition h_follow :: handler where
  "h_follow e ps body d = follow e body d"

text \<open>The routes of \<open>server.js\<close>.\<close>

definition server_app :: "route list" where
  "server_app =
     [(GET, [], not_modelled),
      (POST, [Lit ''api'', Lit ''users''], h_register),
      (POST, [Lit ''api'', Lit ''auth'', Lit ''signin''], h_signin),
      (POST, [Lit ''api'', Lit ''auth'', Lit ''signout''], not_modelled),
      (GET, [Lit ''api'', Lit ''users''], not_modelled),
      (PATCH, [Lit ''api'', Lit ''users'', Par ''id''], h_patch_user),
      (GET, [Lit ''api'', Lit ''events''], not_modelled),
      (POST, [Lit ''api'', Lit ''events''], not_modelled),
      (DELETE, [Lit ''api'', Lit ''events'', Par ''id''], not_modelled),
      (POST, [Lit ''api'', Lit ''events'', Par ''id'', Lit ''rsvp''], h_rsvp),
      (GET, [Lit ''api'', Lit ''messages'', Par ''userId'', Par ''otherId''], h_history),
      (POST, [Lit ''api'', Lit ''messages''], not_modelled)]"

text \<open>
  The routes of the file that appends comments, follows, notifications, trending and
  the enhanced RSVP handler to those of \<open>server.js\<close>, on the same application.
\<close>

definition social_app :: "route list" where
  "social_app =
     server_app @
     [(GET, [Lit ''api'', Lit ''events'', Par ''id'', Lit ''comments''], not_modelled),
      (POST, [Lit ''api'', Lit ''events'', Par ''id'', Lit ''comments''], not_modelled),
      (DELETE, [Lit ''api'', Lit ''comments'', Par ''id''], not_modelled),
      (GET, [Lit ''api'', Lit ''users'', Par ''id'', Lit ''follows''], not_modelled),
      (POST, [Lit ''api'', Lit ''follows''], h_follow),
      (GET, [Lit ''api'', Lit ''notifications'', Par ''userId''], not_modelled),
      (PATCH, [Lit ''api'', Lit ''notifications'', Par ''userId'', Lit ''read''], not_modelled),
      (GET, [Lit ''api'', Lit ''events'', Lit ''trending''], h_trending),
      (POST, [Lit ''api'', Lit ''events'', Par ''id'', Lit ''rsvp''], h_rsvp_enhanced),
      (POST, [Lit ''api'', Lit ''notifications''], not_modelled)]"

section \<open>Notions used in the statements\<close>

text \<open>The RSVP list of the event \<open>eid\<close> in the store, and the user ids of a list.\<close>

definition rsvps_of :: "db \<Rightarrow> string \<Rightarrow> obj list" where
  "rsvps_of d eid = concat (map rsvps_or_empty (filter (\<lambda>ev. ev_id ev = eid) (events d)))"

definition user_ids :: "obj list \<Rightarrow> jval option set" where
  "user_ids rsvps = (\<lambda>r. fld r ''userId'') ` set rsvps"

text \<open>The list one toggle computes from an event and a body, and the table it leaves.\<close>

definition toggled :: "event \<Rightarrow> obj \<Rightarrow> obj list" where
  "toggled ev body =
     toggle_rsvps (find_rsvp (rsvps_or_empty ev) (fld body ''userId''))
       (rsvps_or_empty ev) (fld body ''userId'') (fld body ''username'')"

definition events_after :: "string \<Rightarrow> obj list \<Rightarrow> event list \<Rightarrow> event list" where
  "events_after eid rs evs =
     map (\<lambda>x. if ev_id x = eid then x\<lparr>ev_rsvps := Some rs\<rparr> else x) evs"


text \<open>Every event of the store satisfies the invariant.\<close>

definition all_one_entry_per_user :: "db \<Rightarrow> bool" where
  "all_one_entry_per_user d = list_all (\<lambda>ev. one_entry_per_user (rsvps_or_empty ev)) (events d)"

text \<open>
  The events and the messages a reply carries, and the member names of the JSON object
  it carries (a reply that carries an array, or nothing, has none).
\<close>

definition events_of :: "reply \<Rightarrow> event list" where
  "events_of r = (case snd r of PEvents evs \<Rightarrow> evs | _ \<Rightarrow> [])"

definition messages_of :: "reply \<Rightarrow> message list" where
  "messages_of r = (case snd r of PMessages ms \<Rightarrow> ms | _ \<Rightarrow> [])"

definition reply_keys :: "reply \<Rightarrow> string set" where
  "reply_keys r =
     (case snd r of
        PObj r \<Rightarrow> keys r
      | PError msg \<Rightarrow> {''error''}
      | PNotConfigured \<Rightarrow> {''error'', ''steps''}
      | _ \<Rightarrow> {})"

text \<open>The store's answer to the query of the trending operation, before the limit.\<close>

definition newest_first :: "env \<Rightarrow> db \<Rightarrow> event list" where
  "newest_first e d =
     sb_order_desc ev_created_at
       (filter (qualifying (now e - 24 * 60 * 60 * 1000)) (events d))"

text \<open>The columns a profile update can write.\<close>

definition profile_columns :: "string set" where
  "profile_columns = {''username'', ''avatar'', ''bio'', ''profile_color''}"

text \<open>
  A request that passes the three field checks of the registration; the row a
  registration stores; the condition that no stored user has the email, or matches
  the user name, of a request.
\<close>

definition valid_signup :: "obj \<Rightarrow> bool" where
  "valid_signup body =
     (truthy (fld body ''username'') \<and> truthy (fld body ''email'')
      \<and> truthy (fld body ''password'') \<and> \<not> shorter_than (fld body ''password'') 6)"

definition new_user_row :: "env \<Rightarrow> obj \<Rightarrow> obj" where
  "new_user_row e body =
     stored_row (generated e)
       (obj_lit [(''username'', fld body ''username''), (''email'', fld body ''email''),
                 (''password_hash'', Some (JStr (hashPassword e (fld body ''password'')))),
                 (''avatar'', if truthy (fld body ''avatar'') then fld body ''avatar''
                              else Some (dicebear e (fld body ''username''))),
                 (''online'', Some (JBool True))])"

definition unused :: "env \<Rightarrow> obj \<Rightarrow> db \<Rightarrow> bool" where
  "unused e body d =
     list_all (\<lambda>r. \<not> sb_eq r ''email'' (fld body ''email'')
                  \<and> \<not> sb_ilike (store_fold e) r ''username'' (fld body ''username''))
       (users d)"

text \<open>
  A text that, as a pattern, stands for itself alone: it holds no \<open>*\<close> and, once
  folded, none of \<open>%\<close>, \<open>_\<close> and the backslash.  A row whose column \<open>col\<close> is the
  text \<open>u\<close> up to the store's case folding.
\<close>

definition plain_pattern :: "(string \<Rightarrow> string) \<Rightarrow> string \<Rightarrow> bool" where
  "plain_pattern lc p =
     (list_all (\<lambda>c. c \<noteq> CHR ''*'') p
      \<and> list_all (\<lambda>c. c \<noteq> CHR ''%'' \<and> c \<noteq> CHR ''_'' \<and> c \<noteq> CHR 0x5C) (lc p))"

definition same_text :: "(string \<Rightarrow> string) \<Rightarrow> string \<Rightarrow> string \<Rightarrow> obj \<Rightarrow> bool" where
  "same_text lc col u r =
     (case fld r col of Some (JStr s) \<Rightarrow> lc s = lc u | _ \<Rightarrow> False)"

text \<open>The number of stored users a lookup of the registration selects.\<close>

definition email_matches :: "obj \<Rightarrow> db \<Rightarrow> nat" where
  "email_matches body d =
     length (filter (\<lambda>r. sb_eq r ''email'' (fld body ''email'')) (users d))"

definition ilike_matches :: "env \<Rightarrow> string \<Rightarrow> obj \<Rightarrow> db \<Rightarrow> nat" where
  "ilike_matches e col body d =
     length (filter (\<lambda>r. sb_ilike (store_fold e) r col (fld body col)) (users d))"

section \<open>Example data\<close>

text \<open>
  A case folding: lower case on the ASCII letters, every other byte as it is.  A text
  without the pattern characters \<open>%\<close>, \<open>_\<close>, \<open>*\<close> and the backslash.
\<close>

definition ascii_lower_char :: "char \<Rightarrow> char" where
  "ascii_lower_char c =
     (case map_of (zip ''ABCDEFGHIJKLMNOPQRSTUVWXYZ'' ''abcdefghijklmnopqrstuvwxyz'') c of
        Some l \<Rightarrow> l
      | None \<Rightarrow> c)"

definition ascii_lower :: "string \<Rightarrow> string" where
  "ascii_lower s = map ascii_lower_char s"

definition wildcard_free :: "string \<Rightarrow> bool" where
  "wildcard_free p =
     list_all (\<lambda>c. c \<noteq> CHR ''%'' \<and> c \<noteq> CHR ''_'' \<and> c \<noteq> CHR ''*'' \<and> c \<noteq> CHR 0x5C) p"

text \<open>
  An environment in which the store answers every call and folds the ASCII letters,
  and a store with the user alice (u0) and her event e1, which the user u1 attends.
\<close>

definition demo_env :: env where
  "demo_env =
     \<lparr>configured = True, down = {}, now = 100000000,
      hashPassword = (\<lambda>p. ''sha:'' @ js_string p),
      generated = [(''id'', JStr ''u9''), (''created_at'', JNum 99999999),
                   (''bio'', JNull), (''profile_color'', JNull)],
      store_fold = ascii_lower,
      encodeURIComponent = (\<lambda>s. s),
      toLowerCase = ascii_lower,
      bcrypt_hash = (\<lambda>p. ''bc:'' @ p),
      bcrypt_compare = (\<lambda>p h. h = ''bc:'' @ p)\<rparr>"

definition bob :: obj where
  "bob = [(''userId'', JStr ''u1''), (''username'', JStr ''Bob'')]"

definition picnic :: event where
  "picnic =
     \<lparr>ev_id = ''e1'', ev_name = ''Picnic'', ev_privacy = ''public'',
      ev_rsvps = Some [bob], ev_created_by = JStr ''u0'', ev_created_at = 99999000\<rparr>"

definition alice :: obj where
  "alice =
     [(''id'', JStr ''u0''), (''username'', JStr ''alice''), (''email'', JStr ''a@x.com''),
      (''password_hash'', JStr ''sha:secret1''), (''avatar'', JStr ''a.png''),
      (''online'', JBool False), (''bio'', JNull), (''profile_color'', JNull),
      (''created_at'', JNum 1000)]"

definition demo_db :: db where
  "demo_db =
     \<lparr>users = [alice], events = [picnic], messages = [], follows = [],
      notifications = []\<rparr>"

definition empty_db :: db where
  "empty_db = \<lparr>users = [], events = [], messages = [], follows = [], notifications = []\<rparr>"

text \<open>The registration of alice, and her sign-in.\<close>

definition alice_signup :: obj where
  "alice_signup =
     [(''username'', JStr ''alice''), (''email'', JStr ''a@x.com''),
      (''password'', JStr ''secret1'')]"

definition alice_signin :: obj where
  "alice_signin = [(''email'', JStr ''a@x.com''), (''password'', JStr ''secret1'')]"

text \<open>A store in which two users are called alice, as a race of two registrations leaves it.\<close>

definition twin_db :: db where
  "twin_db =
     \<lparr>users = [alice,
               set_member ''id'' (JStr ''u5'') (set_member ''email'' (JStr ''b@x.com'') alice)],
      events = [], messages = [], follows = [], notifications = []\<rparr>"

text \<open>An RSVP request of the user u2 for the event e1.\<close>

definition al :: obj where
  "al = [(''userId'', JStr ''u2''), (''username'', JStr ''Al'')]"

definition rsvp_request :: request where
  "rsvp_request =
     \<lparr>req_method = POST, req_path = [''api'', ''events'', ''e1'', ''rsvp''], req_body = al\<rparr>"

text \<open>Eleven public events, all created within the day before \<open>now demo_env\<close>.\<close>

definition fresh :: "nat \<Rightarrow> event" where
  "fresh i =
     \<lparr>ev_id = dec i, ev_name = ''Event'', ev_privacy = ''public'', ev_rsvps = Some [],
      ev_created_by = JNull, ev_created_at = 99999000 + int i\<rparr>"

definition crowded_db :: db where
  "crowded_db =
     \<lparr>users = [], events = map fresh [0..<11], messages = [], follows = [],
      notifications = []\<rparr>"

text \<open>Three messages between the users u1, u2 and u3.\<close>

definition msg_late :: message where
  "msg_late = \<lparr>msg_id = ''m1'', from_user = ''u1'', to_user = ''u2'', msg_text = ''see you'',
               msg_created_at = 30\<rparr>"

definition msg_other :: message where
  "msg_other = \<lparr>msg_id = ''m2'', from_user = ''u1'', to_user = ''u3'', msg_text = ''hello'',
                msg_created_at = 20\<rparr>"

definition msg_early :: message where
  "msg_early = \<lparr>msg_id = ''m3'', from_user = ''u2'', to_user = ''u1'', msg_text = ''coming?'',
                msg_created_at = 10\<rparr>"

definition chat_db :: db where
  "chat_db =
     \<lparr>users = [], events = [], messages = [msg_late, msg_other, msg_early],
      follows = [], notifications = []\<rparr>"

section \<open>Properties of the RSVP toggle\<close>

lemma fld_new_entry: "fld (obj_lit [(''userId'', u), (''username'', n)]) ''userId'' = u"
  by (cases u; cases n) (simp_all add: fld_def)

lemma find_rsvp_None_iff: "find_rsvp rs u = None \<longleftrightarrow> u \<notin> user_ids rs"
  by (auto simp: find_rsvp_def user_ids_def find_None_iff)

lemma toggle_absent:
  "u \<notin> user_ids rs \<Longrightarrow>
     toggle_rsvps (find_rsvp rs u) rs u n = rs @ [obj_lit [(''userId'', u), (''username'', n)]]"
  by (simp add: toggle_rsvps_def find_rsvp_None_iff[symmetric])

lemma toggle_present:
  "u \<in> user_ids rs \<Longrightarrow>
     toggle_rsvps (find_rsvp rs u) rs u n = filter (\<lambda>r. fld r ''userId'' \<noteq> u) rs"
  using find_rsvp_None_iff[of rs u] by (cases "find_rsvp rs u") (simp_all add: toggle_rsvps_def)




lemma toggle_keeps_invariant:
  "one_entry_per_user rs \<Longrightarrow> one_entry_per_user (toggle_rsvps (find_rsvp rs u) rs u n)"
proof (cases "u \<in> user_ids rs")
  case True
  assume "one_entry_per_user rs"
  with True show ?thesis
    by (simp add: toggle_present one_entry_per_user_def distinct_map_filter)
next
  case False
  assume "one_entry_per_user rs"
  with False show ?thesis
    by (simp add: toggle_absent one_entry_per_user_def fld_new_entry user_ids_def)
qed


subsection \<open>What a toggle does to the events table\<close>



lemma events_after_invariant:
  assumes inv: "\<forall>x \<in> set evs. one_entry_per_user (rsvps_or_empty x)"
      and one: "filter (\<lambda>x. ev_id x = eid) evs = [ev]"
  shows "\<forall>x \<in> set (events_after eid (toggled ev body) evs).
           one_entry_per_user (rsvps_or_empty x)"
proof
  fix y assume "y \<in> set (events_after eid (toggled ev body) evs)"
  then obtain x where x: "x \<in> set evs"
    and y: "y = (if ev_id x = eid then x\<lparr>ev_rsvps := Some (toggled ev body)\<rparr> else x)"
    by (auto simp: events_after_def)
  show "one_entry_per_user (rsvps_or_empty y)"
  proof (cases "ev_id x = eid")
    case True
    have "ev \<in> set (filter (\<lambda>x. ev_id x = eid) evs)"
      by (simp add: one)
    then have "ev \<in> set evs" by simp
    then have "one_entry_per_user (rsvps_or_empty ev)" using inv by blast
    then have "one_entry_per_user (toggled ev body)"
      unfolding toggled_def by (rule toggle_keeps_invariant)
    with True y show ?thesis by (simp add: rsvps_or_empty_def)
  next
    case False
    with x y inv show ?thesis by simp
  qed
qed



subsection \<open>Two toggles in a row\<close>



lemma rsvp_enhanced_success:
  assumes "configured e" "0 \<notin> down e" "1 \<notin> down e" "truthy (fld body ''userId'')"
      and "filter (\<lambda>x. ev_id x = eid) (events d) = [ev]"
  shows "fst (rsvp_enhanced e eid body d)
           = (200, PEvent (ev\<lparr>ev_rsvps := Some (toggled ev body)\<rparr>))"
    and "events (snd (rsvp_enhanced e eid body d))
           = events_after eid (toggled ev body) (events d)"
  using assms
  by (simp_all add: rsvp_enhanced_def sb_single_def sb_update_single_def Let_def toggled_def
        events_after_def)







section \<open>Properties of the trending operation\<close>

lemma trending_events:
  "events_of (fst (trending e d)) =
     (if configured e \<and> 0 \<notin> down e
      then sort_by_rsvp_count (take 10 (newest_first e d)) else [])"
  by (simp add: trending_def events_of_def newest_first_def sb_rows_def sb_limit_def
        dbError_def Let_def)

lemma trending_status:
  "configured e \<Longrightarrow> 0 \<notin> down e \<Longrightarrow> fst (fst (trending e d)) = 200"
  by (simp add: trending_def sb_rows_def Let_def)

lemma mset_newest_first:
  "mset (newest_first e d)
     = mset (filter (qualifying (now e - 24 * 60 * 60 * 1000)) (events d))"
  by (simp add: newest_first_def sb_order_desc_def)

lemma mset_sort_by_rsvp_count: "mset (sort_by_rsvp_count evs) = mset evs"
  by (simp add: sort_by_rsvp_count_def)

lemma sorted_neg_rev: "sorted (map (\<lambda>n. - int n) ns) \<Longrightarrow> sorted (rev ns)"
  by (induction ns) (auto simp: sorted_append)

lemma sorted_uminus_rev: "sorted (map uminus (ts :: int list)) \<Longrightarrow> sorted (rev ts)"
  by (induction ts) (auto simp: sorted_append)

lemma sorted_by_count: "sorted (rev (map rsvp_count (sort_by_rsvp_count evs)))"
proof -
  have "sorted (map (\<lambda>ev. - int (rsvp_count ev)) (sort_by_rsvp_count evs))"
    unfolding sort_by_rsvp_count_def by (rule sorted_sort_key)
  then have "sorted (map (\<lambda>n. - int n) (map rsvp_count (sort_by_rsvp_count evs)))"
    by (simp add: comp_def)
  then show ?thesis by (rule sorted_neg_rev)
qed

lemma newest_first_descending: "sorted (rev (map ev_created_at (newest_first e d)))"
proof -
  have "sorted (map (\<lambda>r. - ev_created_at r) (newest_first e d))"
    unfolding newest_first_def sb_order_desc_def by (rule sorted_sort_key)
  then have "sorted (map uminus (map ev_created_at (newest_first e d)))"
    by (simp add: comp_def)
  then show ?thesis by (rule sorted_uminus_rev)
qed

lemma take_drop_sorted:
  assumes "sorted (map f xs)" "x \<in> set (take n xs)" "y \<in> set (drop n xs)"
  shows "f x \<le> f y"
proof -
  have "sorted (map f (take n xs) @ map f (drop n xs))"
    using assms(1) by (simp flip: map_append)
  with assms(2,3) show ?thesis by (auto simp: sorted_append)
qed

lemma mset_minus_take: "mset xs - mset (take n xs) = mset (drop n xs)"
proof -
  have "mset xs = mset (take n xs) + mset (drop n xs)"
    by (simp flip: mset_append)
  then show ?thesis by simp
qed

lemma crowded_all_qualify:
  "filter (qualifying (now demo_env - 86400000)) (events crowded_db) = events crowded_db"
  by (simp add: crowded_db_def demo_env_def fresh_def qualifying_def upt_rec)

text \<open>
  C4, as the claim states it, fails: of eleven public events created within the last
  24 hours the oldest, \<open>fresh 0\<close>, qualifies and is not returned.
\<close>

theorem trending_exactly_counterexample:
  "fresh 0 \<in> set (filter (qualifying (now demo_env - 24 * 60 * 60 * 1000)) (events crowded_db))
   \<and> fresh 0 \<notin> set (events_of (fst (trending demo_env crowded_db)))"
  by (simp add: trending_def events_of_def crowded_db_def demo_env_def fresh_def qualifying_def
        sb_rows_def sb_limit_def sb_order_desc_def sort_by_rsvp_count_def rsvp_count_def
        upt_rec Let_def)

text \<open>
  C4, amended.  With the store answering, the trending operation replies 200 with
  events that are all public and created no earlier than 24 hours before the request,
  ranked in descending order of RSVP-list length (null counting as 0); it returns
  ten of the qualifying events when more than ten qualify, and exactly the
  qualifying events when at most ten do.
\<close>

theorem trending_ranked:
  assumes "configured e" "0 \<notin> down e"
  shows "fst (fst (trending e d)) = 200
         \<and> sorted (rev (map rsvp_count (events_of (fst (trending e d)))))
         \<and> (\<forall>ev \<in> set (events_of (fst (trending e d))).
               ev \<in> set (events d) \<and> ev_privacy ev = ''public''
               \<and> now e - 24 * 60 * 60 * 1000 \<le> ev_created_at ev)
         \<and> length (events_of (fst (trending e d)))
             = min 10 (length (filter (qualifying (now e - 24 * 60 * 60 * 1000)) (events d)))
         \<and> (length (filter (qualifying (now e - 24 * 60 * 60 * 1000)) (events d)) \<le> 10
              \<longrightarrow> mset (events_of (fst (trending e d)))
                    = mset (filter (qualifying (now e - 24 * 60 * 60 * 1000)) (events d)))"
proof -
  let ?Q = "filter (qualifying (now e - 24 * 60 * 60 * 1000)) (events d)"
  let ?R = "events_of (fst (trending e d))"
  have R: "?R = sort_by_rsvp_count (take 10 (newest_first e d))"
    using assms by (simp add: trending_events)
  have len: "length (newest_first e d) = length ?Q"
    using mset_newest_first[of e d] by (metis size_mset)
  have "set ?R \<subseteq> set (newest_first e d)"
    unfolding R using mset_sort_by_rsvp_count[of "take 10 (newest_first e d)"]
    by (metis set_mset_mset set_take_subset)
  moreover have "set (newest_first e d) = set ?Q"
    using mset_newest_first[of e d] by (metis set_mset_mset)
  ultimately have sub: "\<forall>ev \<in> set ?R. ev \<in> set (events d) \<and> ev_privacy ev = ''public''
               \<and> now e - 24 * 60 * 60 * 1000 \<le> ev_created_at ev"
    by (auto simp: qualifying_def)
  have "length ?R = length (take 10 (newest_first e d))"
    unfolding R using mset_sort_by_rsvp_count[of "take 10 (newest_first e d)"]
    by (metis size_mset)
  then have l: "length ?R = min 10 (length ?Q)"
    using len by simp
  have all: "length ?Q \<le> 10 \<longrightarrow> mset ?R = mset ?Q"
    unfolding R using len by (simp add: mset_sort_by_rsvp_count mset_newest_first)
  have srt: "sorted (rev (map rsvp_count ?R))"
    unfolding R by (rule sorted_by_count)
  from trending_status[OF assms] srt sub l all show ?thesis by blast
qed

theorem trending_ranked_witness:
  "configured demo_env \<and> 0 \<notin> down demo_env
   \<and> fst (fst (trending demo_env crowded_db)) = 200
   \<and> length (events_of (fst (trending demo_env crowded_db))) = 10
   \<and> sorted (rev (map rsvp_count (events_of (fst (trending demo_env crowded_db)))))"
proof -
  have h1: "configured demo_env" and h2: "0 \<notin> down demo_env"
    by (simp_all add: demo_env_def)
  have "length (filter (qualifying (now demo_env - 24 * 60 * 60 * 1000)) (events crowded_db))
          = 11"
    by (simp add: crowded_all_qualify) (simp add: crowded_db_def)
  with trending_ranked[OF h1 h2, of crowded_db] h1 h2 show ?thesis
    by simp
qed

text \<open>
  C10.  The trending operation returns at most 10 events.  With the store answering,
  they are the first ten of the qualifying events in the store's newest-first order,
  to which the RSVP-count ranking is then applied: every qualifying event left out is
  no newer than every event returned.
\<close>

theorem trending_ten_newest:
  "length (events_of (fst (trending e d))) \<le> 10
   \<and> (configured e \<and> 0 \<notin> down e \<longrightarrow>
        events_of (fst (trending e d)) = sort_by_rsvp_count (take 10 (newest_first e d))
        \<and> mset (newest_first e d)
            = mset (filter (qualifying (now e - 24 * 60 * 60 * 1000)) (events d))
        \<and> sorted (rev (map ev_created_at (newest_first e d)))
        \<and> (\<forall>x \<in> set (events_of (fst (trending e d))).
             \<forall>y \<in># mset (filter (qualifying (now e - 24 * 60 * 60 * 1000)) (events d))
                      - mset (events_of (fst (trending e d))).
               ev_created_at y \<le> ev_created_at x))"
proof -
  let ?Q = "filter (qualifying (now e - 24 * 60 * 60 * 1000)) (events d)"
  let ?R = "events_of (fst (trending e d))"
  let ?L = "newest_first e d"
  have "length (sort_by_rsvp_count (take 10 ?L)) = length (take 10 ?L)"
    using mset_sort_by_rsvp_count[of "take 10 ?L"] by (metis size_mset)
  then have le: "length ?R \<le> 10"
    by (simp add: trending_events)
  have "configured e \<and> 0 \<notin> down e \<longrightarrow>
          (\<forall>x \<in> set ?R. \<forall>y \<in># mset ?Q - mset ?R. ev_created_at y \<le> ev_created_at x)"
  proof (intro impI ballI)
    fix x y
    assume ok: "configured e \<and> 0 \<notin> down e"
    then have R: "?R = sort_by_rsvp_count (take 10 ?L)"
      by (simp add: trending_events)
    assume "x \<in> set ?R"
    then have x: "x \<in> set (take 10 ?L)"
      unfolding R using mset_sort_by_rsvp_count[of "take 10 ?L"] by (metis set_mset_mset)
    assume "y \<in># mset ?Q - mset ?R"
    then have "y \<in># mset ?L - mset (take 10 ?L)"
      unfolding R by (simp add: mset_sort_by_rsvp_count mset_newest_first)
    then have y: "y \<in> set (drop 10 ?L)"
      by (simp add: mset_minus_take)
    have "sorted (map (\<lambda>r. - ev_created_at r) ?L)"
      unfolding newest_first_def sb_order_desc_def by (rule sorted_sort_key)
    from take_drop_sorted[OF this x y] show "ev_created_at y \<le> ev_created_at x"
      by simp
  qed
  with le show ?thesis
    by (simp add: trending_events mset_newest_first newest_first_descending)
qed

theorem trending_ten_newest_witness:
  "configured demo_env \<and> 0 \<notin> down demo_env
   \<and> length (events_of (fst (trending demo_env crowded_db))) \<le> 10
   \<and> events_of (fst (trending demo_env crowded_db)) = map fresh (rev [1..<11])
   \<and> fresh 0 \<in># mset (filter (qualifying (now demo_env - 24 * 60 * 60 * 1000))
                          (events crowded_db))
                   - mset (events_of (fst (trending demo_env crowded_db)))
   \<and> list_all (\<lambda>x. ev_created_at (fresh 0) \<le> ev_created_at x)
         (events_of (fst (trending demo_env crowded_db)))"
proof -
  have h: "configured demo_env \<and> 0 \<notin> down demo_env"
    by (simp add: demo_env_def)
  have r: "events_of (fst (trending demo_env crowded_db)) = map fresh (rev [1..<11])"
    by (simp add: trending_def events_of_def crowded_db_def demo_env_def fresh_def
          qualifying_def sb_rows_def sb_limit_def sb_order_desc_def sort_by_rsvp_count_def
          rsvp_count_def upt_rec Let_def)
  have "fresh 0 \<in># mset (events crowded_db) - mset (map fresh (rev [1..<11]))"
    by (simp add: crowded_db_def upt_rec)
  then have y: "fresh 0 \<in># mset (filter (qualifying (now demo_env - 24 * 60 * 60 * 1000))
                          (events crowded_db))
                   - mset (events_of (fst (trending demo_env crowded_db)))"
    by (simp add: crowded_all_qualify r)
  from trending_ten_newest[of demo_env crowded_db] h
  have le: "length (events_of (fst (trending demo_env crowded_db))) \<le> 10"
    and all: "\<forall>x \<in> set (events_of (fst (trending demo_env crowded_db))).
             \<forall>y \<in># mset (filter (qualifying (now demo_env - 24 * 60 * 60 * 1000))
                              (events crowded_db))
                      - mset (events_of (fst (trending demo_env crowded_db))).
               ev_created_at y \<le> ev_created_at x"
    by blast+
  from all y have "list_all (\<lambda>x. ev_created_at (fresh 0) \<le> ev_created_at x)
         (events_of (fst (trending demo_env crowded_db)))"
    unfolding list_all_iff by blast
  with h le r y show ?thesis by blast
qed

section \<open>Properties of the message history\<close>

lemma between_commute: "between a b = between b a"
  by (auto simp: between_def fun_eq_iff)

lemma history_messages:
  "messages_of (fst (history e a b d)) =
     (if configured e \<and> 0 \<notin> down e
      then sort_key msg_created_at (filter (between a b) (messages d)) else [])"
  by (simp add: history_def messages_of_def sb_rows_def sb_order_asc_def dbError_def)

text \<open>
  C8.  The history for (A,B) is the history for (B,A): the two requests get the same
  reply, and the same list of messages.  When the store answers, the reply is 200 and
  carries exactly the messages of the table whose (from, to) is (A,B) or (B,A), each
  as often as the table holds it; the list is ordered oldest-first by creation time.
\<close>

theorem history_symmetric:
  "history e a b d = history e b a d
   \<and> sorted (map msg_created_at (messages_of (fst (history e a b d))))
   \<and> (configured e \<and> 0 \<notin> down e \<longrightarrow>
        fst (fst (history e a b d)) = 200
        \<and> mset (messages_of (fst (history e a b d)))
            = mset (filter (\<lambda>m. (from_user m = a \<and> to_user m = b)
                               \<or> (from_user m = b \<and> to_user m = a)) (messages d)))"
proof -
  have "history e a b d = history e b a d"
    by (simp add: history_def between_commute[of a b])
  moreover have "sorted (map msg_created_at (messages_of (fst (history e a b d))))"
    by (simp add: history_messages)
  moreover have "configured e \<and> 0 \<notin> down e \<longrightarrow> fst (fst (history e a b d)) = 200"
    by (simp add: history_def sb_rows_def)
  moreover have "configured e \<and> 0 \<notin> down e \<longrightarrow>
        mset (messages_of (fst (history e a b d)))
            = mset (filter (\<lambda>m. (from_user m = a \<and> to_user m = b)
                               \<or> (from_user m = b \<and> to_user m = a)) (messages d))"
    by (simp add: history_messages between_def[abs_def])
  ultimately show ?thesis by blast
qed

theorem history_symmetric_witness:
  "configured demo_env \<and> 0 \<notin> down demo_env
   \<and> messages_of (fst (history demo_env ''u1'' ''u2'' chat_db)) = [msg_early, msg_late]
   \<and> messages_of (fst (history demo_env ''u2'' ''u1'' chat_db)) = [msg_early, msg_late]
   \<and> fst (fst (history demo_env ''u2'' ''u1'' chat_db)) = 200"
proof -
  have h: "configured demo_env \<and> 0 \<notin> down demo_env"
    by (simp add: demo_env_def)
  have r: "messages_of (fst (history demo_env ''u1'' ''u2'' chat_db)) = [msg_early, msg_late]"
    by (simp add: history_def messages_of_def demo_env_def chat_db_def msg_late_def
          msg_other_def msg_early_def between_def sb_rows_def sb_order_asc_def)
  from history_symmetric[of demo_env "''u2''" "''u1''" chat_db] h
  have "history demo_env ''u2'' ''u1'' chat_db = history demo_env ''u1'' ''u2'' chat_db"
    and "fst (fst (history demo_env ''u2'' ''u1'' chat_db)) = 200"
    by blast+
  with h r show ?thesis by simp
qed

section \<open>Properties of the profile update\<close>

lemma fld_set_member: "fld (set_member k v r) k' = (if k' = k then Some v else fld r k')"
  by (induction r) (auto simp: fld_def)

lemma fld_apply_updates: "k \<notin> keys ups \<Longrightarrow> fld (apply_updates ups r) k = fld r k"
  unfolding apply_updates_def
  by (induction ups arbitrary: r) (auto simp: keys_def fld_set_member)

lemma keys_obj_lit: "keys (obj_lit kvs) \<subseteq> fst ` set kvs"
  by (induction kvs rule: obj_lit.induct) (auto simp: keys_def)

lemma sb_update_single_frame:
  assumes "\<And>r. f (u r) = f r"
  shows "map f (snd (sb_update_single failed p u rows)) = map f rows"
  using assms by (auto simp: sb_update_single_def split: list.splits)

text \<open>
  C9.  A profile update, whatever the body holds and whatever the store does, leaves
  every column other than \<open>username\<close>, \<open>avatar\<close>, \<open>bio\<close> and \<open>profile_color\<close> of
  every stored user as it was, in particular \<open>email\<close>, \<open>password_hash\<close> and
  \<open>online\<close>; it adds and removes no user and touches no other table.
\<close>

theorem patch_user_frame:
  "(k \<notin> profile_columns \<longrightarrow>
      map (\<lambda>r. fld r k) (users (snd (patch_user e uid body d))) = map (\<lambda>r. fld r k) (users d))
   \<and> map (\<lambda>r. fld r ''email'') (users (snd (patch_user e uid body d)))
       = map (\<lambda>r. fld r ''email'') (users d)
   \<and> map (\<lambda>r. fld r ''password_hash'') (users (snd (patch_user e uid body d)))
       = map (\<lambda>r. fld r ''password_hash'') (users d)
   \<and> map (\<lambda>r. fld r ''online'') (users (snd (patch_user e uid body d)))
       = map (\<lambda>r. fld r ''online'') (users d)
   \<and> events (snd (patch_user e uid body d)) = events d
   \<and> messages (snd (patch_user e uid body d)) = messages d
   \<and> notifications (snd (patch_user e uid body d)) = notifications d"
proof -
  let ?ups = "obj_lit [(''username'', fld body ''username''), (''avatar'', fld body ''avatar''),
                       (''bio'', fld body ''bio''), (''profile_color'', fld body ''profile_color'')]"
  have ks: "keys ?ups \<subseteq> profile_columns"
    using keys_obj_lit[of "[(''username'', fld body ''username''), (''avatar'', fld body ''avatar''),
                       (''bio'', fld body ''bio''), (''profile_color'', fld body ''profile_color'')]"]
    by (auto simp: profile_columns_def)
  have frame: "map (\<lambda>r. fld r c) (users (snd (patch_user e uid body d)))
                 = map (\<lambda>r. fld r c) (users d)" if "c \<notin> profile_columns" for c
  proof -
    from that ks have "c \<notin> keys ?ups" by blast
    then have "\<And>r. fld (apply_updates ?ups r) c = fld r c"
      by (rule fld_apply_updates)
    then have "map (\<lambda>r. fld r c)
                 (snd (sb_update_single (0 \<in> down e) (\<lambda>u. sb_eq u ''id'' (Some (JStr uid)))
                         (apply_updates ?ups) (users d)))
               = map (\<lambda>r. fld r c) (users d)"
      by (rule sb_update_single_frame)
    moreover
    have "users (snd (patch_user e uid body d)) = users d
          \<or> users (snd (patch_user e uid body d))
              = snd (sb_update_single (0 \<in> down e) (\<lambda>u. sb_eq u ''id'' (Some (JStr uid)))
                       (apply_updates ?ups) (users d))"
      by (auto simp: patch_user_def Let_def split: prod.splits sum.splits)
    ultimately show ?thesis by auto
  qed
  have rest: "events (snd (patch_user e uid body d)) = events d
              \<and> messages (snd (patch_user e uid body d)) = messages d
              \<and> notifications (snd (patch_user e uid body d)) = notifications d"
    by (simp add: patch_user_def Let_def split: prod.splits sum.splits)
  have "''email'' \<notin> profile_columns" "''password_hash'' \<notin> profile_columns"
       "''online'' \<notin> profile_columns"
    by (simp_all add: profile_columns_def)
  with frame rest show ?thesis by blast
qed

theorem patch_user_frame_witness:
  "''id'' \<notin> profile_columns
   \<and> map (\<lambda>r. fld r ''id'')
       (users (snd (patch_user demo_env ''u0''
                      [(''bio'', JStr ''hi''), (''email'', JStr ''evil@x.com''),
                       (''password_hash'', JStr ''0000''), (''online'', JBool True)] demo_db)))
       = [Some (JStr ''u0'')]
   \<and> map (\<lambda>r. fld r ''email'')
       (users (snd (patch_user demo_env ''u0''
                      [(''bio'', JStr ''hi''), (''email'', JStr ''evil@x.com''),
                       (''password_hash'', JStr ''0000''), (''online'', JBool True)] demo_db)))
       = [Some (JStr ''a@x.com'')]
   \<and> map (\<lambda>r. fld r ''bio'')
       (users (snd (patch_user demo_env ''u0''
                      [(''bio'', JStr ''hi''), (''email'', JStr ''evil@x.com''),
                       (''password_hash'', JStr ''0000''), (''online'', JBool True)] demo_db)))
       = [Some (JStr ''hi'')]"
proof -
  have h: "''id'' \<notin> profile_columns"
    by (simp add: profile_columns_def)
  have u: "map (\<lambda>r. fld r ''id'') (users demo_db) = [Some (JStr ''u0'')]"
          "map (\<lambda>r. fld r ''email'') (users demo_db) = [Some (JStr ''a@x.com'')]"
    by (simp_all add: demo_db_def alice_def fld_def)
  have b: "map (\<lambda>r. fld r ''bio'')
       (users (snd (patch_user demo_env ''u0''
                      [(''bio'', JStr ''hi''), (''email'', JStr ''evil@x.com''),
                       (''password_hash'', JStr ''0000''), (''online'', JBool True)] demo_db)))
       = [Some (JStr ''hi'')]"
    by (simp add: patch_user_def demo_env_def demo_db_def alice_def fld_def sb_eq_def
          sb_update_single_def apply_updates_def Let_def)
  from patch_user_frame[of "''id''" demo_env "''u0''"
         "[(''bio'', JStr ''hi''), (''email'', JStr ''evil@x.com''),
           (''password_hash'', JStr ''0000''), (''online'', JBool True)]" demo_db] h u b
  show ?thesis by simp
qed

section \<open>Properties of registration and sign-in\<close>

lemma keys_set_member: "keys (set_member k v r) = insert k (keys r)"
  by (induction r) (force simp: keys_def)+

lemma keys_without: "keys (without k r) = keys r - {k}"
  by (auto simp: keys_def without_def)

lemma keys_select_cols: "keys (select_cols cols r) = set cols"
  by (auto simp: keys_def select_cols_def image_iff)

lemma no_hash_in_user_cols: "''password_hash'' \<notin> set user_cols"
  by (simp add: user_cols_def)

lemma register_no_hash: "''password_hash'' \<notin> reply_keys (fst (register e body d))"
  by (auto simp: register_def reply_keys_def dbError_def Let_def keys_select_cols
        no_hash_in_user_cols sb_insert_single_def
      split: sum.splits option.splits prod.splits if_splits)

lemma signin_no_hash: "''password_hash'' \<notin> reply_keys (fst (signin e body d))"
  by (auto simp: signin_def reply_keys_def dbError_def Let_def keys_select_cols keys_set_member
        no_hash_in_user_cols sb_maybeSingle_def
      split: sum.splits option.splits prod.splits if_splits list.splits)

lemma register_socket_no_hash:
  "''password_hash'' \<notin> reply_keys (fst (register_socket e body d))"
  by (auto simp: register_socket_def reply_keys_def thrown_def Let_def keys_without
        keys_set_member
      split: sum.splits option.splits prod.splits if_splits jval.splits)

lemma signin_socket_no_hash:
  "''password_hash'' \<notin> reply_keys (fst (signin_socket e body d))"
  by (auto simp: signin_socket_def reply_keys_def thrown_def Let_def keys_without
        keys_set_member
      split: sum.splits option.splits prod.splits if_splits jval.splits)

lemma truthy_defined: "truthy x \<Longrightarrow> x \<noteq> None \<and> x \<noteq> Some JNull"
  by (cases x rule: truthy.cases) simp_all

lemma register_success:
  assumes "configured e" "0 \<notin> down e" "1 \<notin> down e" "2 \<notin> down e"
      and "valid_signup body" "unused e body d"
  shows "register e body d =
           ((200, PObj (select_cols user_cols (new_user_row e body))),
            d\<lparr>users := users d @ [new_user_row e body]\<rparr>)"
proof -
  from assms(6) have "filter (\<lambda>u. sb_eq u ''email'' (fld body ''email'')) (users d) = []"
    and "filter (\<lambda>u. sb_ilike (store_fold e) u ''username'' (fld body ''username''))
           (users d) = []"
    by (simp_all add: unused_def list_all_iff filter_empty_conv)
  with assms(1-5) show ?thesis
    by (simp add: register_def valid_signup_def sb_maybeSingle_def sb_insert_single_def
          new_user_row_def Let_def)
qed

lemma fld_new_user_row:
  assumes "fld body ''username'' \<noteq> None" "fld body ''email'' \<noteq> None"
  shows "fld (new_user_row e body) ''email'' = fld body ''email''"
    and "fld (new_user_row e body) ''password_hash''
           = Some (JStr (hashPassword e (fld body ''password'')))"
  using assms by (auto simp: new_user_row_def stored_row_def fld_def)

lemma signin_after_register:
  assumes "configured e" "0 \<notin> down e"
      and "valid_signup body" "unused e body d"
      and "fld creds ''email'' = fld body ''email''"
      and "fld creds ''password'' = fld body ''password''"
  shows "fst (signin e creds (d\<lparr>users := users d @ [new_user_row e body]\<rparr>))
           = (200, PObj (set_member ''online'' (JBool True)
                           (select_cols user_cols (new_user_row e body))))"
proof -
  from assms(3) have t: "truthy (fld body ''username'')" "truthy (fld body ''email'')"
      "truthy (fld body ''password'')"
    by (simp_all add: valid_signup_def)
  then have ne: "fld body ''username'' \<noteq> None" "fld body ''email'' \<noteq> None"
    using truthy_defined by blast+
  from t(2) have nn: "fld body ''email'' \<noteq> Some JNull"
    using truthy_defined by blast
  have old: "filter (\<lambda>u. sb_eq u ''email'' (fld body ''email'')
                        \<and> sb_eq u ''password_hash''
                             (Some (JStr (hashPassword e (fld body ''password''))))) (users d) = []"
    using assms(4) by (simp add: unused_def list_all_iff filter_empty_conv)
  have new: "sb_eq (new_user_row e body) ''email'' (fld body ''email'')
             \<and> sb_eq (new_user_row e body) ''password_hash''
                  (Some (JStr (hashPassword e (fld body ''password''))))"
    using ne nn by (auto simp: sb_eq_def fld_new_user_row split: option.splits)
  show ?thesis
    using assms(1,2,5,6) t old new
    by (simp add: signin_def sb_maybeSingle_def Let_def)
qed

text \<open>
  C7.  No reply of the registration or of the sign-in, in \<open>server.js\<close> and in the
  socket variant, for any request and any state of the store, holds a member
  \<open>password_hash\<close>.  And when the store answers, a valid registration whose email and
  user name no stored user has is answered 200, and so is a sign-in that follows it
  with the same email and password; both replies hold exactly the selected columns.
\<close>

theorem replies_never_hold_password_hash:
  "''password_hash'' \<notin> reply_keys (fst (register e body d))
   \<and> ''password_hash'' \<notin> reply_keys (fst (signin e creds d'))
   \<and> ''password_hash'' \<notin> reply_keys (fst (register_socket e body d))
   \<and> ''password_hash'' \<notin> reply_keys (fst (signin_socket e creds d'))
   \<and> (configured e \<and> down e = {} \<and> valid_signup body \<and> unused e body d
        \<and> fld creds ''email'' = fld body ''email''
        \<and> fld creds ''password'' = fld body ''password'' \<longrightarrow>
          fst (fst (register e body d)) = 200
          \<and> reply_keys (fst (register e body d)) = set user_cols
          \<and> fst (fst (signin e creds (snd (register e body d)))) = 200
          \<and> reply_keys (fst (signin e creds (snd (register e body d)))) = set user_cols)"
proof -
  have "configured e \<and> down e = {} \<and> valid_signup body \<and> unused e body d
        \<and> fld creds ''email'' = fld body ''email''
        \<and> fld creds ''password'' = fld body ''password'' \<longrightarrow>
          fst (fst (register e body d)) = 200
          \<and> reply_keys (fst (register e body d)) = set user_cols
          \<and> fst (fst (signin e creds (snd (register e body d)))) = 200
          \<and> reply_keys (fst (signin e creds (snd (register e body d)))) = set user_cols"
  proof
    assume a: "configured e \<and> down e = {} \<and> valid_signup body \<and> unused e body d
        \<and> fld creds ''email'' = fld body ''email''
        \<and> fld creds ''password'' = fld body ''password''"
    then have r: "register e body d =
           ((200, PObj (select_cols user_cols (new_user_row e body))),
            d\<lparr>users := users d @ [new_user_row e body]\<rparr>)"
      by (intro register_success) simp_all
    from a have s: "fst (signin e creds (d\<lparr>users := users d @ [new_user_row e body]\<rparr>))
           = (200, PObj (set_member ''online'' (JBool True)
                           (select_cols user_cols (new_user_row e body))))"
      by (intro signin_after_register) simp_all
    have "insert ''online'' (set user_cols) = set user_cols"
      by (auto simp: user_cols_def)
    with r s show "fst (fst (register e body d)) = 200
          \<and> reply_keys (fst (register e body d)) = set user_cols
          \<and> fst (fst (signin e creds (snd (register e body d)))) = 200
          \<and> reply_keys (fst (signin e creds (snd (register e body d)))) = set user_cols"
      by (simp add: reply_keys_def keys_select_cols keys_set_member)
  qed
  with register_no_hash[of e body d] signin_no_hash[of e creds d']
       register_socket_no_hash[of e body d] signin_socket_no_hash[of e creds d']
  show ?thesis by blast
qed

theorem replies_never_hold_password_hash_witness:
  "configured demo_env \<and> down demo_env = {} \<and> valid_signup alice_signup
   \<and> unused demo_env alice_signup empty_db
   \<and> fst (fst (register demo_env alice_signup empty_db)) = 200
   \<and> fst (fst (signin demo_env alice_signin (snd (register demo_env alice_signup empty_db))))
       = 200
   \<and> reply_keys (fst (signin demo_env alice_signin
                         (snd (register demo_env alice_signup empty_db))))
       = set user_cols
   \<and> ''password_hash'' \<notin> set user_cols"
proof -
  have h: "configured demo_env \<and> down demo_env = {} \<and> valid_signup alice_signup
           \<and> unused demo_env alice_signup empty_db
           \<and> fld alice_signin ''email'' = fld alice_signup ''email''
           \<and> fld alice_signin ''password'' = fld alice_signup ''password''"
    by (simp add: demo_env_def valid_signup_def alice_signup_def alice_signin_def unused_def
          empty_db_def fld_def utf16_length_def continuation_def)
  from replies_never_hold_password_hash[of demo_env alice_signup empty_db alice_signin empty_db] h
  show ?thesis by (simp add: no_hash_in_user_cols)
qed

section \<open>Properties of the enhanced RSVP handler and of the routing\<close>

lemma rsvp_never_notifies: "notifications (snd (rsvp e eid body d)) = notifications d"
  by (simp add: rsvp_def Let_def split: sum.splits prod.splits)

text \<open>
  What the enhanced handler does by itself when the store answers: a toggle that adds
  an entry appends one notification addressed to the creator of the event, unless
  the event has no creator or the creator is the requesting user; a toggle that
  removes an entry appends none.
\<close>

lemma rsvp_enhanced_notifications:
  assumes "configured e" "0 \<notin> down e" "1 \<notin> down e" "2 \<notin> down e"
      and "truthy (fld body ''userId'')"
      and "filter (\<lambda>x. ev_id x = eid) (events d) = [ev]"
  shows "notifications (snd (rsvp_enhanced e eid body d)) =
           (if fld body ''userId'' \<notin> user_ids (rsvps_or_empty ev)
               \<and> truthy (Some (ev_created_by ev))
               \<and> Some (ev_created_by ev) \<noteq> fld body ''userId''
            then notifications d @
                   [\<lparr>n_user_id = ev_created_by ev, n_type = ''rsvp'',
                     n_title = rsvp_title (fld body ''username'') ev,
                     n_body = ''Someone new joined your event.'',
                     n_data = obj_lit [(''event_id'', Some (JStr eid)),
                                       (''user_id'', fld body ''userId'')]\<rparr>]
            else notifications d)"
  using assms
  by (simp add: rsvp_enhanced_def sb_single_def sb_update_single_def sb_insert_def Let_def
        find_rsvp_None_iff)

text \<open>
  C6.  In the enhanced handler, when the fetch and the update of the event succeed
  and the insert of the notification fails, the reply is still 200 with the updated
  event, the same reply as when the insert succeeds; the event is updated and no
  notification is stored.
\<close>

theorem rsvp_reply_ignores_notification_failure:
  assumes "configured e" "0 \<notin> down e" "1 \<notin> down e" "2 \<in> down e"
      and "truthy (fld body ''userId'')"
      and "filter (\<lambda>x. ev_id x = eid) (events d) = [ev]"
  shows "fst (rsvp_enhanced e eid body d)
           = (200, PEvent (ev\<lparr>ev_rsvps := Some (toggled ev body)\<rparr>))
         \<and> fst (rsvp_enhanced e eid body d)
             = fst (rsvp_enhanced (e\<lparr>down := down e - {2}\<rparr>) eid body d)
         \<and> events (snd (rsvp_enhanced e eid body d))
             = events_after eid (toggled ev body) (events d)
         \<and> notifications (snd (rsvp_enhanced e eid body d)) = notifications d"
proof -
  have ok: "configured (e\<lparr>down := down e - {2}\<rparr>)" "0 \<notin> down (e\<lparr>down := down e - {2}\<rparr>)"
    "1 \<notin> down (e\<lparr>down := down e - {2}\<rparr>)"
    using assms(1-3) by simp_all
  have "notifications (snd (rsvp_enhanced e eid body d)) = notifications d"
    using assms
    by (simp add: rsvp_enhanced_def sb_single_def sb_update_single_def sb_insert_def Let_def)
  with rsvp_enhanced_success[OF assms(1-3,5,6)] rsvp_enhanced_success(1)[OF ok assms(5,6)]
  show ?thesis by simp
qed

theorem rsvp_reply_ignores_notification_failure_witness:
  "configured (demo_env\<lparr>down := {2}\<rparr>) \<and> 0 \<notin> down (demo_env\<lparr>down := {2}\<rparr>)
   \<and> 1 \<notin> down (demo_env\<lparr>down := {2}\<rparr>) \<and> 2 \<in> down (demo_env\<lparr>down := {2}\<rparr>)
   \<and> truthy (fld al ''userId'')
   \<and> filter (\<lambda>x. ev_id x = ''e1'') (events demo_db) = [picnic]
   \<and> fst (rsvp_enhanced (demo_env\<lparr>down := {2}\<rparr>) ''e1'' al demo_db)
       = (200, PEvent (picnic\<lparr>ev_rsvps := Some [bob, al]\<rparr>))
   \<and> notifications (snd (rsvp_enhanced (demo_env\<lparr>down := {2}\<rparr>) ''e1'' al demo_db)) = []
   \<and> length (notifications (snd (rsvp_enhanced demo_env ''e1'' al demo_db))) = 1"
proof -
  have h1: "configured (demo_env\<lparr>down := {2}\<rparr>)" and h2: "0 \<notin> down (demo_env\<lparr>down := {2}\<rparr>)"
    and h3: "1 \<notin> down (demo_env\<lparr>down := {2}\<rparr>)" and h4: "2 \<in> down (demo_env\<lparr>down := {2}\<rparr>)"
    by (simp_all add: demo_env_def)
  have h5: "truthy (fld al ''userId'')"
    by (simp add: al_def fld_def)
  have h6: "filter (\<lambda>x. ev_id x = ''e1'') (events demo_db) = [picnic]"
    by (simp add: demo_db_def picnic_def)
  have t: "toggled picnic al = [bob, al]"
    by (simp add: toggled_def picnic_def rsvps_or_empty_def find_rsvp_def toggle_rsvps_def
          bob_def al_def fld_def)
  have n: "length (notifications (snd (rsvp_enhanced demo_env ''e1'' al demo_db))) = 1"
    by (simp add: rsvp_enhanced_def demo_env_def demo_db_def picnic_def bob_def al_def fld_def
          sb_single_def sb_update_single_def sb_insert_def rsvps_or_empty_def find_rsvp_def
          toggle_rsvps_def Let_def)
  from rsvp_reply_ignores_notification_failure[OF h1 h2 h3 h4 h5 h6] h1 h2 h3 h4 h5 h6 t n
  show ?thesis by (simp add: demo_db_def)
qed

text \<open>
  The application that registers both RSVP handlers sends every RSVP request to the
  one registered first, the handler of \<open>server.js\<close>.
\<close>

lemma social_app_rsvp_route:
  "eid \<noteq> [] \<Longrightarrow>
   dispatch social_app e
     \<lparr>req_method = POST, req_path = [''api'', ''events'', eid, ''rsvp''], req_body = body\<rparr> d
   = rsvp e eid body d"
  by (simp add: dispatch_def social_app_def server_app_def h_rsvp_def param_def)

text \<open>
  C5.  The user u2 asks to join the event e1 of the user u0.  The request is
  answered 200, the entry is added, and the store holds no notification for u0;
  the enhanced handler, had the request reached it, would have stored one.
\<close>

theorem rsvp_request_creates_no_notification:
  "dispatch social_app demo_env rsvp_request demo_db = rsvp demo_env ''e1'' al demo_db
   \<and> fst (fst (dispatch social_app demo_env rsvp_request demo_db)) = 200
   \<and> rsvps_of (snd (dispatch social_app demo_env rsvp_request demo_db)) ''e1'' = [bob, al]
   \<and> ev_created_by picnic = JStr ''u0''
   \<and> notifications (snd (dispatch social_app demo_env rsvp_request demo_db)) = []
   \<and> map n_user_id (notifications (snd (rsvp_enhanced demo_env ''e1'' al demo_db)))
       = [JStr ''u0'']"
proof -
  have d: "dispatch social_app demo_env rsvp_request demo_db = rsvp demo_env ''e1'' al demo_db"
    unfolding rsvp_request_def by (rule social_app_rsvp_route) simp
  have r: "rsvp demo_env ''e1'' al demo_db
             = ((200, PEvent (picnic\<lparr>ev_rsvps := Some [bob, al]\<rparr>)),
                demo_db\<lparr>events := [picnic\<lparr>ev_rsvps := Some [bob, al]\<rparr>]\<rparr>)"
    by (simp add: rsvp_def demo_env_def demo_db_def picnic_def bob_def al_def fld_def
          sb_single_def sb_update_single_def rsvps_or_empty_def find_rsvp_def
          toggle_rsvps_def Let_def)
  have n: "map n_user_id (notifications (snd (rsvp_enhanced demo_env ''e1'' al demo_db)))
             = [JStr ''u0'']"
    by (simp add: rsvp_enhanced_def demo_env_def demo_db_def picnic_def bob_def al_def fld_def
          sb_single_def sb_update_single_def sb_insert_def rsvps_or_empty_def find_rsvp_def
          toggle_rsvps_def Let_def)
  show ?thesis
    unfolding d r using n
    by (simp add: rsvps_of_def rsvps_or_empty_def demo_db_def picnic_def)
qed

section \<open>Properties of the conflict test of the registration\<close>

lemma like_plain:
  "list_all (\<lambda>c. c \<noteq> CHR ''%'' \<and> c \<noteq> CHR ''_'' \<and> c \<noteq> CHR 0x5C) p \<Longrightarrow> like p s = (p = s)"
proof (induction p arbitrary: s)
  case Nil
  then show ?case by auto
next
  case (Cons c p)
  then show ?case by (cases s) auto
qed

lemma star_to_percent_plain: "list_all (\<lambda>c. c \<noteq> CHR ''*'') p \<Longrightarrow> star_to_percent p = p"
  by (induction p) (auto simp: star_to_percent_def)

text \<open>
  For a pattern that stands for itself alone, \<open>ilike\<close> is equality up to the store's
  case folding.
\<close>

lemma ilike_plain:
  assumes "plain_pattern lc p"
  shows "ilike lc p s = (lc p = lc s)"
proof -
  from assms have "like (lc p) (lc s) = (lc p = lc s)"
    unfolding plain_pattern_def by (intro like_plain) simp
  moreover from assms have "star_to_percent p = p"
    unfolding plain_pattern_def by (intro star_to_percent_plain) simp
  ultimately show ?thesis
    by (simp add: ilike_def)
qed

lemma sb_ilike_plain:
  "plain_pattern lc u \<Longrightarrow> sb_ilike lc r col (Some (JStr u)) = same_text lc col u r"
  by (auto simp: sb_ilike_def same_text_def ilike_plain split: option.splits jval.splits)

text \<open>The folding of the ASCII letters brings no pattern character into a text.\<close>

lemma ascii_lower_char_cases:
  "ascii_lower_char c = c \<or> ascii_lower_char c \<in> set ''abcdefghijklmnopqrstuvwxyz''"
proof (cases "map_of (zip ''ABCDEFGHIJKLMNOPQRSTUVWXYZ'' ''abcdefghijklmnopqrstuvwxyz'') c")
  case None
  then show ?thesis by (simp add: ascii_lower_char_def)
next
  case (Some l)
  then have "(c, l) \<in> set (zip ''ABCDEFGHIJKLMNOPQRSTUVWXYZ'' ''abcdefghijklmnopqrstuvwxyz'')"
    by (rule map_of_SomeD)
  then have "l \<in> set ''abcdefghijklmnopqrstuvwxyz''"
    by (rule set_zip_rightD)
  with Some show ?thesis by (simp add: ascii_lower_char_def)
qed

lemma ascii_lower_char_plain:
  assumes "c \<noteq> CHR ''%'' \<and> c \<noteq> CHR ''_'' \<and> c \<noteq> CHR 0x5C"
  shows "ascii_lower_char c \<noteq> CHR ''%'' \<and> ascii_lower_char c \<noteq> CHR ''_''
         \<and> ascii_lower_char c \<noteq> CHR 0x5C"
  using ascii_lower_char_cases[of c] assms by auto

lemma wildcard_free_plain: "wildcard_free p \<Longrightarrow> plain_pattern ascii_lower p"
  using ascii_lower_char_plain
  by (auto simp: wildcard_free_def plain_pattern_def ascii_lower_def list_all_iff)

text \<open>
  Lengths and patterns count characters, not bytes: a password of three accented
  letters (six bytes) is shorter than six and is answered 400, and \<open>_\<close> matches one
  accented letter.
\<close>

lemma short_accented_password:
  "utf16_length [CHR 0xC3, CHR 0xA9, CHR 0xC3, CHR 0xA0, CHR 0xC3, CHR 0xBC] = 3
   \<and> fst (fst (register demo_env
                  [(''username'', JStr ''carl''), (''email'', JStr ''c@x.com''),
                   (''password'', JStr [CHR 0xC3, CHR 0xA9, CHR 0xC3, CHR 0xA0, CHR 0xC3, CHR 0xBC])]
                  demo_db)) = 400"
  by (simp add: register_def demo_env_def fld_def utf16_length_def continuation_def)

lemma underscore_matches_one_character:
  "like ''a_b'' [CHR ''a'', CHR 0xC3, CHR 0xA9, CHR ''b'']
   \<and> \<not> like ''a__b'' [CHR ''a'', CHR 0xC3, CHR 0xA9, CHR ''b'']"
  by (simp add: continuation_def)

subsection \<open>The two lookups of \<open>server.js\<close> and the lookup of the socket variant\<close>

lemma maybeSingle_one:
  "length rows = 1 \<Longrightarrow> \<exists>r. sb_maybeSingle False rows = Inr (Some r)"
  by (cases rows) (auto simp: sb_maybeSingle_def split: list.splits)

lemma register_conflict_email:
  assumes "configured e" "valid_signup body" "0 \<notin> down e" "email_matches body d = 1"
  shows "register e body d
           = ((409, PError ''Email already registered. Please sign in.''), d)"
proof -
  from assms(4) obtain r where
    "sb_maybeSingle False (filter (\<lambda>r. sb_eq r ''email'' (fld body ''email'')) (users d))
       = Inr (Some r)"
    unfolding email_matches_def using maybeSingle_one by blast
  with assms(1-3) show ?thesis
    by (simp add: register_def valid_signup_def Let_def)
qed

lemma register_conflict_name:
  assumes "configured e" "valid_signup body" "1 \<notin> down e"
      and "ilike_matches e ''username'' body d = 1"
  shows "fst (fst (register e body d)) = 409 \<and> snd (register e body d) = d"
proof -
  from assms(4) obtain r where
    "sb_maybeSingle False
       (filter (\<lambda>r. sb_ilike (store_fold e) r ''username'' (fld body ''username'')) (users d))
       = Inr (Some r)"
    unfolding ilike_matches_def using maybeSingle_one by blast
  with assms(1-3) show ?thesis
    by (simp add: register_def valid_signup_def Let_def split: sum.splits option.splits)
qed

lemma register_socket_conflict:
  assumes "truthy (fld body ''username'')" "truthy (fld body ''email'')"
      and "truthy (fld body ''password'')" "0 \<notin> down e"
      and "ilike_matches e ''email'' body d = 1"
  shows "register_socket e body d = ((409, PError ''Email already in use''), d)"
proof -
  from assms(5) obtain r where
    "sb_maybeSingle False
       (filter (\<lambda>r. sb_ilike (store_fold e) r ''email'' (fld body ''email'')) (users d))
       = Inr (Some r)"
    unfolding ilike_matches_def using maybeSingle_one by blast
  with assms(1-4) show ?thesis
    by (simp add: register_socket_def Let_def)
qed

text \<open>
  C3, as the claim states it, fails in four ways.  In \<open>server.js\<close>: the user name
  \<open>ALICE\<close> is that of the stored user \<open>alice\<close> up to case, and a request with it and a
  password of three characters is answered 400; the email \<open>A@X.COM\<close> is that of
  \<open>alice\<close> up to case, and a request with it and a new user name is answered 200; in a
  store with two users called \<open>alice\<close>, a request with the user name \<open>alice\<close> and a
  new email is answered 200.  In the socket variant, a request with the user name
  \<open>alice\<close>, a new email and a password is answered 200.
\<close>

theorem register_conflict_counterexample:
  "list_ex (same_text ascii_lower ''username'' ''ALICE'') (users demo_db)
   \<and> fst (fst (register demo_env
                  [(''username'', JStr ''ALICE''), (''email'', JStr ''new@x.com''),
                   (''password'', JStr ''abc'')] demo_db)) = 400
   \<and> list_ex (same_text ascii_lower ''email'' ''A@X.COM'') (users demo_db)
   \<and> fst (fst (register demo_env
                  [(''username'', JStr ''bob''), (''email'', JStr ''A@X.COM''),
                   (''password'', JStr ''secret1'')] demo_db)) = 200
   \<and> list_ex (same_text ascii_lower ''username'' ''alice'') (users twin_db)
   \<and> fst (fst (register demo_env
                  [(''username'', JStr ''alice''), (''email'', JStr ''new@x.com''),
                   (''password'', JStr ''secret1'')] twin_db)) = 200
   \<and> list_ex (same_text ascii_lower ''username'' ''alice'') (users demo_db)
   \<and> fst (fst (register_socket demo_env
                  [(''username'', JStr ''alice''), (''email'', JStr ''new@x.com''),
                   (''password'', JStr ''secret1'')] demo_db)) = 200"
  by (simp add: register_def register_socket_def demo_env_def demo_db_def twin_db_def alice_def
        fld_def same_text_def ascii_lower_def ascii_lower_char_def utf16_length_def continuation_def sb_eq_def
        sb_ilike_def ilike_def star_to_percent_def sb_maybeSingle_def sb_insert_single_def
        Let_def)

text \<open>
  C3, amended.  In \<open>server.js\<close>, a registration request with a truthy user name, a
  truthy email and a password of at least six characters is answered 409, and stores
  nothing, whatever its other fields, when the email lookup succeeds and selects
  exactly one stored user (one whose email is exactly that of the request), or when
  the user-name lookup succeeds and selects exactly one stored user (one whose user
  name matches that of the request as a case-insensitive pattern).  In the socket
  variant, a request with a truthy user name, email and password is answered 409, and
  stores nothing, when the email lookup succeeds and selects exactly one stored user
  (one whose email matches that of the request as a case-insensitive pattern); the
  user name is not looked up there.  For a text that holds no \<open>*\<close> and, once folded,
  none of \<open>%\<close>, \<open>_\<close> and the backslash, to match as a case-insensitive pattern is to
  be equal up to the store's case folding.
\<close>

theorem register_conflict:
  "(configured e \<and> valid_signup body
      \<and> ((0 \<notin> down e \<and> email_matches body d = 1)
          \<or> (1 \<notin> down e \<and> ilike_matches e ''username'' body d = 1))
      \<longrightarrow> fst (fst (register e body d)) = 409 \<and> snd (register e body d) = d)
   \<and> (truthy (fld body ''username'') \<and> truthy (fld body ''email'')
      \<and> truthy (fld body ''password'')
      \<and> 0 \<notin> down e \<and> ilike_matches e ''email'' body d = 1
      \<longrightarrow> fst (fst (register_socket e body d)) = 409 \<and> snd (register_socket e body d) = d)
   \<and> (plain_pattern (store_fold e) u
      \<longrightarrow> sb_ilike (store_fold e) r col (Some (JStr u)) = same_text (store_fold e) col u r)"
proof -
  have a: "configured e \<and> valid_signup body
      \<and> ((0 \<notin> down e \<and> email_matches body d = 1)
          \<or> (1 \<notin> down e \<and> ilike_matches e ''username'' body d = 1))
      \<longrightarrow> fst (fst (register e body d)) = 409 \<and> snd (register e body d) = d"
    using register_conflict_email[of e body d] register_conflict_name[of e body d] by auto
  have b: "truthy (fld body ''username'') \<and> truthy (fld body ''email'')
      \<and> truthy (fld body ''password'')
      \<and> 0 \<notin> down e \<and> ilike_matches e ''email'' body d = 1
      \<longrightarrow> fst (fst (register_socket e body d)) = 409 \<and> snd (register_socket e body d) = d"
    using register_socket_conflict[of body e d] by auto
  have c: "plain_pattern (store_fold e) u
      \<longrightarrow> sb_ilike (store_fold e) r col (Some (JStr u)) = same_text (store_fold e) col u r"
    by (simp add: sb_ilike_plain)
  from a b c show ?thesis by blast
qed

text \<open>
  Three requests to a store whose one user is alice, with the email \<open>a@x.com\<close>: the
  user name \<open>al_ce\<close> with her email (the email lookup of \<open>server.js\<close>), the user name
  \<open>ALICE\<close> with a new email (the user-name lookup of \<open>server.js\<close>), and a new user
  name with the email \<open>A@X.COM\<close> (the email lookup of the socket variant).
\<close>

theorem register_conflict_witness:
  "configured demo_env \<and> 0 \<notin> down demo_env \<and> 1 \<notin> down demo_env
   \<and> valid_signup [(''username'', JStr ''al_ce''), (''email'', JStr ''a@x.com''),
                    (''password'', JStr ''secret1'')]
   \<and> email_matches [(''username'', JStr ''al_ce''), (''email'', JStr ''a@x.com''),
                     (''password'', JStr ''secret1'')] demo_db = 1
   \<and> fst (fst (register demo_env
                  [(''username'', JStr ''al_ce''), (''email'', JStr ''a@x.com''),
                   (''password'', JStr ''secret1'')] demo_db)) = 409
   \<and> ilike_matches demo_env ''username''
        [(''username'', JStr ''ALICE''), (''email'', JStr ''new@x.com''),
         (''password'', JStr ''secret1'')] demo_db = 1
   \<and> fst (fst (register demo_env
                  [(''username'', JStr ''ALICE''), (''email'', JStr ''new@x.com''),
                   (''password'', JStr ''secret1'')] demo_db)) = 409
   \<and> ilike_matches demo_env ''email''
        [(''username'', JStr ''zed''), (''email'', JStr ''A@X.COM''),
         (''password'', JStr ''secret1'')] demo_db = 1
   \<and> fst (fst (register_socket demo_env
                  [(''username'', JStr ''zed''), (''email'', JStr ''A@X.COM''),
                   (''password'', JStr ''secret1'')] demo_db)) = 409
   \<and> plain_pattern (store_fold demo_env) ''ALICE''
   \<and> sb_ilike (store_fold demo_env) alice ''username'' (Some (JStr ''ALICE''))
   \<and> same_text (store_fold demo_env) ''username'' ''ALICE'' alice"
proof -
  let ?b1 = "[(''username'', JStr ''al_ce''), (''email'', JStr ''a@x.com''),
              (''password'', JStr ''secret1'')]"
  let ?b2 = "[(''username'', JStr ''ALICE''), (''email'', JStr ''new@x.com''),
              (''password'', JStr ''secret1'')]"
  let ?b3 = "[(''username'', JStr ''zed''), (''email'', JStr ''A@X.COM''),
              (''password'', JStr ''secret1'')]"
  have env: "configured demo_env" "0 \<notin> down demo_env" "1 \<notin> down demo_env"
    by (simp_all add: demo_env_def)
  have v: "valid_signup ?b1" "valid_signup ?b2"
    by (simp_all add: valid_signup_def fld_def utf16_length_def continuation_def)
  have t: "truthy (fld ?b3 ''username'')" "truthy (fld ?b3 ''email'')"
          "truthy (fld ?b3 ''password'')"
    by (simp_all add: fld_def)
  have m1: "email_matches ?b1 demo_db = 1"
    by (simp add: email_matches_def demo_db_def alice_def fld_def sb_eq_def)
  have m2: "ilike_matches demo_env ''username'' ?b2 demo_db = 1"
    by (simp add: ilike_matches_def demo_env_def demo_db_def alice_def fld_def sb_ilike_def
          ilike_def star_to_percent_def ascii_lower_def ascii_lower_char_def)
  have m3: "ilike_matches demo_env ''email'' ?b3 demo_db = 1"
    by (simp add: ilike_matches_def demo_env_def demo_db_def alice_def fld_def sb_ilike_def
          ilike_def star_to_percent_def ascii_lower_def ascii_lower_char_def)
  have p: "plain_pattern (store_fold demo_env) ''ALICE''"
    by (simp add: plain_pattern_def demo_env_def ascii_lower_def ascii_lower_char_def)
  have s: "same_text (store_fold demo_env) ''username'' ''ALICE'' alice"
    by (simp add: same_text_def demo_env_def alice_def fld_def ascii_lower_def
          ascii_lower_char_def)
  from register_conflict[of demo_env ?b1 demo_db] env v(1) m1
  have r1: "fst (fst (register demo_env ?b1 demo_db)) = 409"
    by blast
  from register_conflict[of demo_env ?b2 demo_db] env v(2) m2
  have r2: "fst (fst (register demo_env ?b2 demo_db)) = 409"
    by blast
  from register_conflict[of demo_env ?b3 demo_db] env t m3
  have r3: "fst (fst (register_socket demo_env ?b3 demo_db)) = 409"
    by blast
  from register_conflict[of demo_env _ _ "''ALICE''" alice "''username''"] p s
  have i: "sb_ilike (store_fold demo_env) alice ''username'' (Some (JStr ''ALICE''))"
    by blast
  from env v(1) m1 r1 m2 r2 m3 r3 p i s show ?thesis by blast
qed

section \<open>The socket variant of the toggle and the follow toggle\<close>

text \<open>
  The socket variant broadcasts an activity when, and only when, the update succeeds
  and the toggle added an entry; it stores no notification.
\<close>

lemma rsvp_socket_activity:
  assumes "0 \<notin> down e" "1 \<notin> down e"
      and "filter (\<lambda>x. ev_id x = eid) (events d) = [ev]"
  shows "snd (fst (rsvp_socket e eid body d)) =
           EventUpdated (ev\<lparr>ev_rsvps := Some (toggled ev body)\<rparr>) #
           (if fld body ''userId'' \<notin> user_ids (rsvps_or_empty ev)
            then [Activity ''rsvpAdded'' (fld body ''username'')
                    (''is going to '' @ [CHR 0x22] @ ev_name ev @ [CHR 0x22]) (now e)]
            else [])"
    and "notifications (snd (rsvp_socket e eid body d)) = notifications d"
  using assms
  by (simp_all add: rsvp_socket_def sb_single_def sb_update_single_def Let_def toggled_def
        find_rsvp_None_iff)

lemma rsvp_socket_events_cases:
  "events (snd (rsvp_socket e eid body d)) = events d
   \<or> (\<exists>ev. filter (\<lambda>x. ev_id x = eid) (events d) = [ev]
          \<and> events (snd (rsvp_socket e eid body d))
              = events_after eid (toggled ev body) (events d))"
  by (auto simp: rsvp_socket_def sb_single_def sb_update_single_def Let_def toggled_def
                 events_after_def
           split: list.splits sum.splits prod.splits if_splits)

lemma rsvp_socket_keeps_one_entry_per_user:
  assumes "all_one_entry_per_user d"
  shows "all_one_entry_per_user (snd (rsvp_socket e eid body d))"
proof -
  from assms have inv: "\<forall>x \<in> set (events d). one_entry_per_user (rsvps_or_empty x)"
    by (simp add: all_one_entry_per_user_def list_all_iff)
  have "\<forall>x \<in> set (events (snd (rsvp_socket e eid body d))).
          one_entry_per_user (rsvps_or_empty x)"
    using rsvp_socket_events_cases[of e eid body d] inv events_after_invariant by metis
  then show ?thesis
    by (simp add: all_one_entry_per_user_def list_all_iff)
qed

text \<open>
  The follow toggle answers \<open>following: true\<close> whenever the lookup does not return
  one edge, whichever of the insert of the edge, the lookup of the follower and the
  insert of the notification fail.
\<close>

lemma follow_reply_ignores_failures:
  assumes "configured e" "truthy (fld body ''follower_id'')" "truthy (fld body ''following_id'')"
      and "0 \<in> down e
           \<or> length (filter (\<lambda>f. sb_eq f ''follower_id'' (fld body ''follower_id'')
                                  \<and> sb_eq f ''following_id'' (fld body ''following_id''))
                       (follows d)) \<noteq> 1"
  shows "fst (follow e body d) = (200, PObj [(''following'', JBool True)])"
  using assms
  by (auto simp: follow_def sb_maybeSingle_def Let_def split: list.splits)

end
